theory Spec2Isabelle
  imports Main
begin

section \<open>Python values and numpy arrays\<close>

text \<open>
  Exceptions of the Python source are values of \<open>py_error\<close>; a function that may raise
  returns \<open>py_error + 'a\<close> with \<open>Inl\<close> for the exception. \<open>EngineError\<close> stands for any
  exception raised inside the external inference engine.
\<close>

datatype py_error =
  ValueError | IndexError | TypeError | AttributeError | ZeroDivisionError
  | AssertionError | StopIteration | EngineError

text \<open>
  A two-dimensional numpy array is the list of its rows, a three-dimensional one the list
  of its matrices, and so on. The representation carries the shape of an array only when
  no axis is empty: \<open>shape0\<close> is the number of rows and \<open>shape1\<close> the length of the first
  row (0 for an array without rows). Theorems about arrays state the rectangularity they
  need.
\<close>

type_synonym 'a array2 = "'a list list"
type_synonym 'a array3 = "'a list list list"
type_synonym 'a array4 = "'a list list list list"

definition shape0 :: "'a list \<Rightarrow> nat" where
  "shape0 a = length a"

definition shape1 :: "'a list list \<Rightarrow> nat" where
  "shape1 a = (case a of [] \<Rightarrow> 0 | r # _ \<Rightarrow> length r)"

definition rectangular :: "'a array2 \<Rightarrow> bool" where
  "rectangular a = (a \<noteq> [] \<and> list_all (\<lambda>r. length r = shape1 a) a)"

text \<open>
  An argument that the source accepts either as a numpy array or as a plain Python list
  (\<open>isinstance(x, numpy.ndarray)\<close> decides).
\<close>

datatype 'a array_or_list = NdArray "'a array2" | PyList "'a list"

section \<open>\<open>create_causal_mask\<close> (transformers/utils/helpers.py)\<close>

text \<open>\<open>chunks k n xs\<close>: the first \<open>k\<close> consecutive groups of \<open>n\<close> elements of \<open>xs\<close>.\<close>

fun chunks :: "nat \<Rightarrow> nat \<Rightarrow> 'a list \<Rightarrow> 'a list list" where
  "chunks 0 n xs = []"
| "chunks (Suc k) n xs = take n xs # chunks k n (drop n xs)"

text \<open>
  \<open>numpy.reshape(attention_mask, (batch_size, 1, 1, sequence_length))\<close>: the elements in
  row-major order, regrouped; numpy raises ValueError when the sizes differ.
\<close>

definition reshape_b11s :: "'a array2 \<Rightarrow> nat \<Rightarrow> nat \<Rightarrow> py_error + 'a array4" where
  "reshape_b11s a b s =
     (if length (concat a) \<noteq> b * s then Inl ValueError
      else Inr (map (\<lambda>r. [[r]]) (chunks b s (concat a))))"

text \<open>Row \<open>i\<close> of \<open>numpy.tril(numpy.ones((l, l)), 0)\<close>.\<close>

definition tril_row :: "nat \<Rightarrow> nat \<Rightarrow> int list" where
  "tril_row l i = map (\<lambda>j. if j \<le> i then 1 else 0) [0..<l]"

text \<open>\<open>numpy.count_nonzero(attention_mask == 0)\<close>: counted over the whole array.\<close>

definition count_zeros :: "int array2 \<Rightarrow> nat" where
  "count_zeros m = length (filter (\<lambda>x. x = 0) (concat m))"

text \<open>\<open>row[:n] = 0\<close> for \<open>n \<ge> 0\<close>: a slice longer than the row stops at its end.\<close>

definition zero_left :: "nat \<Rightarrow> int list \<Rightarrow> int list" where
  "zero_left n row = replicate (min n (length row)) 0 @ drop n row"

text \<open>
  The mask before the zeroing: for every batch entry a single channel whose row \<open>i\<close> is
  the all-ones past block of width \<open>s - l\<close> followed by row \<open>i\<close> of the triangle.
\<close>

definition unzeroed_causal_mask :: "nat \<Rightarrow> nat \<Rightarrow> nat \<Rightarrow> int array4" where
  "unzeroed_causal_mask b l s =
     replicate b [map (\<lambda>i. replicate (s - l) 1 @ tril_row l i) [0..<l]]"

definition create_causal_mask ::
  "'a array_or_list \<Rightarrow> int array_or_list \<Rightarrow> py_error + int array4" where
  "create_causal_mask input_ids attention_mask =
     (let (batch_size, input_ids_length) =
            (case input_ids of
               NdArray a \<Rightarrow> (shape0 a, shape1 a)
             | PyList xs \<Rightarrow> (1, length xs));
          (sequence_length, attention_mask) =
            (case attention_mask of
               NdArray m \<Rightarrow> (shape1 m, m)
             | PyList xs \<Rightarrow> (length xs, [xs]))
      in if input_ids_length = 1
         then reshape_b11s attention_mask batch_size sequence_length
         else if sequence_length < input_ids_length then Inl ValueError
         else
           (let causal_mask = unzeroed_causal_mask batch_size input_ids_length sequence_length;
                num_zeros = count_zeros attention_mask
            in Inr (map (map (map (zero_left num_zeros))) causal_mask)))"

text \<open>
  The vocabulary of the statements about \<open>create_causal_mask\<close>: the rows of the attention
  mask argument, the batch size and input length the function reads off \<open>input_ids\<close>,
  and the well-formed inputs (rectangular arrays of matching batch size, with the input
  no longer than the sequence).
\<close>

definition mask_rows :: "int array_or_list \<Rightarrow> int array2" where
  "mask_rows attention_mask =
     (case attention_mask of NdArray m \<Rightarrow> m | PyList xs \<Rightarrow> [xs])"

definition batch_size_of :: "'a array_or_list \<Rightarrow> nat" where
  "batch_size_of input_ids =
     (case input_ids of NdArray a \<Rightarrow> shape0 a | PyList xs \<Rightarrow> 1)"

definition input_ids_length_of :: "'a array_or_list \<Rightarrow> nat" where
  "input_ids_length_of input_ids =
     (case input_ids of NdArray a \<Rightarrow> shape1 a | PyList xs \<Rightarrow> length xs)"

definition valid_mask_inputs :: "'a array_or_list \<Rightarrow> int array_or_list \<Rightarrow> bool" where
  "valid_mask_inputs input_ids attention_mask =
     ((case input_ids of NdArray a \<Rightarrow> rectangular a | PyList xs \<Rightarrow> True) \<and>
      rectangular (mask_rows attention_mask) \<and>
      batch_size_of input_ids = length (mask_rows attention_mask) \<and>
      input_ids_length_of input_ids \<le> shape1 (mask_rows attention_mask))"

section \<open>Engine inputs and batches\<close>

text \<open>
  A token as a Python list holds it: an integer, or \<open>None\<close> (which \<open>prompt_inference\<close>
  appends when no inference step has produced a token).
\<close>

type_synonym token = "int option"

text \<open>
  The numpy arrays that travel through the pipeline: integer arrays of rank 2 (input ids,
  attention mask, positions) and of rank 4 (causal mask), and the object array numpy
  builds from a list that holds \<open>None\<close>.
\<close>

datatype ndarray = Int2 "int array2" | Int4 "int array4" | Obj2 "token array2"

text \<open>
  An element of the \<open>items\<close> and \<open>engine_inputs\<close> lists: a numpy array, the Python list
  of session ids (the only element with \<open>isinstance(item, list)\<close>), or a single session id
  (the only element with \<open>isinstance(item, str)\<close>).
\<close>

datatype item = Array ndarray | SessionIds "string list" | SessionId string

definition is_list :: "item \<Rightarrow> bool" where
  "is_list x = (case x of SessionIds _ \<Rightarrow> True | _ \<Rightarrow> False)"

definition is_str :: "item \<Rightarrow> bool" where
  "is_str x = (case x of SessionId _ \<Rightarrow> True | _ \<Rightarrow> False)"

text \<open>\<open>a.shape[0]\<close> and the slice \<open>a[i : j]\<close> along the first axis, for \<open>0 \<le> i \<le> j\<close>.\<close>

definition nd_shape0 :: "ndarray \<Rightarrow> nat" where
  "nd_shape0 a = (case a of Int2 x \<Rightarrow> length x | Int4 x \<Rightarrow> length x | Obj2 x \<Rightarrow> length x)"

definition slice :: "nat \<Rightarrow> nat \<Rightarrow> 'a list \<Rightarrow> 'a list" where
  "slice i j xs = take (j - i) (drop i xs)"

definition nd_slice :: "nat \<Rightarrow> nat \<Rightarrow> ndarray \<Rightarrow> ndarray" where
  "nd_slice i j a =
     (case a of Int2 x \<Rightarrow> Int2 (slice i j x)
      | Int4 x \<Rightarrow> Int4 (slice i j x)
      | Obj2 x \<Rightarrow> Obj2 (slice i j x))"

section \<open>\<open>split_engine_inputs\<close> and \<open>join_engine_outputs\<close> (text_generation.py)\<close>

text \<open>Whether an item is a numpy array, and the array it is.\<close>

definition the_array :: "item \<Rightarrow> ndarray" where
  "the_array x = (case x of Array a \<Rightarrow> a | _ \<Rightarrow> Int2 [])"

definition is_array :: "item \<Rightarrow> bool" where
  "is_array x = (case x of Array _ \<Rightarrow> True | _ \<Rightarrow> False)"

text \<open>
  Modelled from the spec: \<open>deepsparse.utils.data.split_engine_inputs\<close>, the generic
  batch splitting that the pipeline's method calls and whose source is not part of the
  repository snapshot. The spec says that it partitions the tensors into sub-batches of a
  caller-specified batch size and returns the sub-batches with the original batch size.
  The original batch size is the first axis of the first item; sub-batch \<open>j\<close> holds, for
  every item, the rows \<open>j * batch_size .. (j + 1) * batch_size\<close>. What happens to a last
  sub-batch when the batch size does not divide the total is not fixed by the spec; here
  it is left short. A batch size of 0 is the zero step of \<open>range\<close> (ValueError), an empty
  \<open>items\<close> has no first item (IndexError), and an item without a shape (a string) is an
  AttributeError.
\<close>

definition data_split_engine_inputs ::
  "item list \<Rightarrow> nat \<Rightarrow> py_error + (item list list \<times> nat)" where
  "data_split_engine_inputs items batch_size =
     (if items = [] then Inl IndexError
      else if \<not> list_all is_array items then Inl AttributeError
      else if batch_size = 0 then Inl ValueError
      else
        (let total_batch_size = nd_shape0 (the_array (hd items));
             num_batches = (total_batch_size + batch_size - 1) div batch_size
         in Inr (map (\<lambda>j. map (\<lambda>x. Array (nd_slice (j * batch_size)
                                  ((j + 1) * batch_size) (the_array x))) items)
                   [0..<num_batches],
                 total_batch_size)))"

text \<open>
  The list comprehension \<open>[batch + [session_ids[i]] for i, batch in enumerate(batches)]\<close>,
  from index \<open>i\<close> on: subscripting \<open>None\<close> is a TypeError, an index past the end of the
  list an IndexError.
\<close>

fun distribute_session_ids ::
  "string list option \<Rightarrow> nat \<Rightarrow> item list list \<Rightarrow> py_error + item list list" where
  "distribute_session_ids session_ids i [] = Inr []"
| "distribute_session_ids session_ids i (batch # batches) =
     (case session_ids of
        None \<Rightarrow> Inl TypeError
      | Some ids \<Rightarrow>
          if i < length ids
          then (case distribute_session_ids session_ids (Suc i) batches of
                  Inl e \<Rightarrow> Inl e
                | Inr bs \<Rightarrow> Inr ((batch @ [SessionId (ids ! i)]) # bs))
          else Inl IndexError)"

text \<open>
  \<open>next((item for item in items if isinstance(item, list)), None)\<close>: the first list among
  the items.
\<close>

definition first_session_ids :: "item list \<Rightarrow> string list option" where
  "first_session_ids items =
     (case find is_list items of Some (SessionIds ids) \<Rightarrow> Some ids | _ \<Rightarrow> None)"

text \<open>
  The pipeline's \<open>split_engine_inputs\<close>. The generic splitting it delegates to is the
  parameter \<open>split\<close>.
\<close>

definition split_engine_inputs ::
  "(item list \<Rightarrow> nat \<Rightarrow> py_error + (item list list \<times> nat)) \<Rightarrow>
   item list \<Rightarrow> nat \<Rightarrow> py_error + (item list list \<times> nat)" where
  "split_engine_inputs split items batch_size =
     (let session_ids = first_session_ids items;
          items = filter (\<lambda>x. \<not> is_list x) items
      in case split items batch_size of
           Inl e \<Rightarrow> Inl e
         | Inr (batches, orig_batch_size) \<Rightarrow>
             (case distribute_session_ids session_ids 0 batches of
                Inl e \<Rightarrow> Inl e
              | Inr batches_w_session_ids \<Rightarrow> Inr (batches_w_session_ids, orig_batch_size)))"

text \<open>The session ids that a sub-batch carries, in order.\<close>

definition carried_session_ids :: "item list \<Rightarrow> string list" where
  "carried_session_ids batch =
     concat (map (\<lambda>x. case x of SessionId s \<Rightarrow> [s] | SessionIds ss \<Rightarrow> ss | _ \<Rightarrow> []) batch)"

text \<open>
  \<open>pad_to_fixed_length(array, max_len, axis=1, value)\<close> (helpers.py) on an array of rank
  at least 2, given as the list of its rows along axis 0, each row the list of its entries
  along axis 1: every row is padded on the right with \<open>max_len - array.shape[1]\<close> copies
  of \<open>fill\<close>, the entry made of \<open>value\<close>. numpy.pad raises ValueError for a negative pad
  width.
\<close>

definition pad_to_fixed_length :: "'a array2 \<Rightarrow> nat \<Rightarrow> 'a \<Rightarrow> py_error + 'a array2" where
  "pad_to_fixed_length array max_len fill =
     (if max_len < shape1 array then Inl ValueError
      else Inr (map (\<lambda>row. row @ replicate (max_len - shape1 array) fill) array))"

text \<open>
  \<open>numpy.concatenate(arrays, axis=0)\<close>: the rows of all arrays in order. numpy raises
  ValueError for an empty sequence of arrays and when the arrays disagree on a dimension
  other than the first; \<open>dims\<close> gives those dimensions.
\<close>

definition concatenate_axis0 :: "('a list \<Rightarrow> nat list) \<Rightarrow> 'a list list \<Rightarrow> py_error + 'a list" where
  "concatenate_axis0 dims arrays =
     (if arrays = [] then Inl ValueError
      else if \<not> list_all (\<lambda>a. dims a = dims (hd arrays)) arrays then Inl ValueError
      else Inr (concat arrays))"

text \<open>The size of the third axis of a rank-3 array (0 when an earlier axis is empty).\<close>

definition shape2 :: "'a array3 \<Rightarrow> nat" where
  "shape2 a = (case a of [] \<Rightarrow> 0 | r # _ \<Rightarrow> shape1 r)"

text \<open>The results of a list comprehension whose element expression may raise.\<close>

fun those_ok :: "('e + 'a) list \<Rightarrow> 'e + 'a list" where
  "those_ok [] = Inr []"
| "those_ok (x # xs) =
     (case x of
        Inl e \<Rightarrow> Inl e
      | Inr v \<Rightarrow> (case those_ok xs of Inl e \<Rightarrow> Inl e | Inr vs \<Rightarrow> Inr (v # vs)))"

text \<open>\<open>max\<close> of a list of numbers; Python raises ValueError on the empty list.\<close>

definition py_max :: "nat list \<Rightarrow> py_error + nat" where
  "py_max xs = (if xs = [] then Inl ValueError else Inr (fold max xs 0))"

text \<open>
  \<open>join_engine_outputs\<close>. Each sub-batch output is the triple of a rank-2 token array, a
  rank-3 logits array and a rank-1 array of session ids. Unpacking \<open>zip(*batch_outputs)\<close>
  into three names raises ValueError when there is no sub-batch. The logits are padded
  with the value 0, that is with all-zero entries of the array's own vocabulary size.
  The method reads \<open>cache_support_enabled\<close> and the tokenizer's pad token id off the
  pipeline; here they are its first two arguments. \<open>orig_batch_size\<close> is not used by
  the source either.
\<close>

definition join_engine_outputs ::
  "bool \<Rightarrow> int \<Rightarrow> (int array2 \<times> 'l::zero array3 \<times> 's list) list \<Rightarrow> nat \<Rightarrow>
   py_error + (int array2 \<times> 'l array3 \<times> 's list)" where
  "join_engine_outputs cache_support_enabled pad_token_id batch_outputs orig_batch_size =
     (if batch_outputs = [] then Inl ValueError
      else
        (let tokens = map fst batch_outputs;
             logits = map (fst \<circ> snd) batch_outputs;
             session_ids = map (snd \<circ> snd) batch_outputs;
             padded =
               (if cache_support_enabled
                then
                  (case py_max (map shape1 tokens) of
                     Inl e \<Rightarrow> Inl e
                   | Inr max_len \<Rightarrow>
                       (case those_ok (map (\<lambda>prediction.
                               pad_to_fixed_length prediction max_len pad_token_id) tokens) of
                          Inl e \<Rightarrow> Inl e
                        | Inr tokens \<Rightarrow>
                            (case py_max (map shape1 logits) of
                               Inl e \<Rightarrow> Inl e
                             | Inr max_len \<Rightarrow>
                                 (case those_ok (map (\<lambda>single_logits.
                                         pad_to_fixed_length single_logits max_len
                                           (replicate (shape2 single_logits) 0)) logits) of
                                    Inl e \<Rightarrow> Inl e
                                  | Inr logits \<Rightarrow> Inr (tokens, logits)))))
                else Inr (tokens, logits))
         in case padded of
              Inl e \<Rightarrow> Inl e
            | Inr (tokens, logits) \<Rightarrow>
                (case concatenate_axis0 (\<lambda>a. [shape1 a]) tokens of
                   Inl e \<Rightarrow> Inl e
                 | Inr tokens \<Rightarrow>
                     (case concatenate_axis0 (\<lambda>a. [shape1 a, shape2 a]) logits of
                        Inl e \<Rightarrow> Inl e
                      | Inr logits \<Rightarrow>
                          (case concatenate_axis0 (\<lambda>a. []) session_ids of
                             Inl e \<Rightarrow> Inl e
                           | Inr session_ids \<Rightarrow> Inr (tokens, logits, session_ids))))))"

text \<open>
  The vocabulary of the round trip with split size 1: the sub-batches that hold one row
  of every array and the session id of that row, the longest of \<open>n\<close> sequences, and a
  row padded on the right.
\<close>

definition unit_batches :: "ndarray list \<Rightarrow> string list \<Rightarrow> item list list" where
  "unit_batches arrays ids =
     map (\<lambda>i. map (\<lambda>a. Array (nd_slice i (Suc i) a)) arrays @ [SessionId (ids ! i)])
       [0..<length ids]"

definition longest :: "(nat \<Rightarrow> 'a list) \<Rightarrow> nat \<Rightarrow> nat" where
  "longest f n = fold max (map (\<lambda>i. length (f i)) [0..<n]) 0"

definition right_pad :: "nat \<Rightarrow> 'a \<Rightarrow> 'a list \<Rightarrow> 'a list" where
  "right_pad n fill row = row @ replicate (n - length row) fill"

section \<open>Cache sessions, engines and the pipeline\<close>

text \<open>
  A kv cache session as the spec's data model has it: its identifier, its timestamp (a
  write counter) and the number of non-blank cache rows.
\<close>

record kv_cache_session =
  kv_session_id :: string
  timestamp :: int
  num_non_blank_entries :: nat

type_synonym session_storage = "string \<rightharpoonup> kv_cache_session"

text \<open>The tensor roles an engine can declare as its inputs (besides the cache).\<close>

datatype input_name = InputIds | AttentionMask | CausalMask | Positions

text \<open>
  An \<open>NLDecoderEngine\<close>: the length of the input it takes per call, its declared input
  names and its session storage. Its class is not part of the repository snapshot; what
  the pipeline uses of it is modelled below, from the spec.
\<close>

record nl_decoder_engine =
  input_ids_length :: int
  onnx_input_names_no_cache :: "input_name list"
  kv_cache_storage :: session_storage

text \<open>
  Modelled from the spec: \<open>get\<close> of the session store, whose class is missing from the
  snapshot. It returns the entry for a session id, or its absence.
\<close>

definition get :: "session_storage \<Rightarrow> string \<Rightarrow> kv_cache_session option" where
  "get storage sid = storage sid"

text \<open>
  Modelled from the spec: \<open>has_session\<close> of the session store says whether the store
  has an entry for the session id.
\<close>

definition has_session :: "session_storage \<Rightarrow> string \<Rightarrow> bool" where
  "has_session storage sid = (storage sid \<noteq> None)"

text \<open>
  Modelled from the spec: \<open>num_non_blank_cache_entries\<close> of the missing engine class,
  the number of non-blank cache rows of a session. Sessions are created lazily on first
  use, so for a session that does not exist yet it is 0.
\<close>

definition num_non_blank_cache_entries :: "nl_decoder_engine \<Rightarrow> string \<Rightarrow> nat" where
  "num_non_blank_cache_entries e sid =
     (case kv_cache_storage e sid of None \<Rightarrow> 0 | Some s \<Rightarrow> num_non_blank_entries s)"

text \<open>
  Modelled from the spec: an absent entry compares as the oldest possible timestamp, so
  \<open>a.timestamp > b.timestamp\<close> on two possibly absent entries is \<open>newer a b\<close>.
\<close>

definition newer :: "kv_cache_session option \<Rightarrow> kv_cache_session option \<Rightarrow> bool" where
  "newer a b =
     (case a of
        None \<Rightarrow> False
      | Some x \<Rightarrow> (case b of None \<Rightarrow> True | Some y \<Rightarrow> timestamp x > timestamp y))"

text \<open>
  Modelled from the spec: whether a transfer replaces. A provided entry replaces the
  store's entry for its session id when its timestamp is not older than the store's own
  (an absent own entry is the oldest possible); an absent provided entry replaces nothing.
\<close>

definition replaces :: "session_storage \<Rightarrow> kv_cache_session option \<Rightarrow> bool" where
  "replaces storage entry =
     (case entry of
        None \<Rightarrow> False
      | Some s \<Rightarrow>
          (case storage (kv_session_id s) of
             None \<Rightarrow> True
           | Some own \<Rightarrow> timestamp own \<le> timestamp s))"

text \<open>
  Modelled from the spec: \<open>transfer_cache_session\<close> of the missing engine class. It
  replaces the store's entry for the session id of the provided entry when the provided
  entry's timestamp is not older; with a stale or an absent entry it is a no-op.
\<close>

definition transfer_cache_session ::
  "nl_decoder_engine \<Rightarrow> kv_cache_session option \<Rightarrow> nl_decoder_engine" where
  "transfer_cache_session e entry =
     (case entry of
        None \<Rightarrow> e
      | Some s \<Rightarrow>
          if replaces (kv_cache_storage e) entry
          then e\<lparr>kv_cache_storage := (kv_cache_storage e)(kv_session_id s \<mapsto> s)\<rparr>
          else e)"

text \<open>
  The attributes of a \<open>TextGenerationPipeline\<close> that are fixed once it is constructed.
  \<open>sequence_length\<close> comes from the base class, \<open>eos_token_id\<close> and \<open>pad_token_id\<close> from
  the tokenizer, and \<open>add_bos_token\<close> is the tokenizer's attribute of that name: \<open>None\<close>
  for a tokenizer without the attribute, otherwise its value (whether the tokenizer puts
  a beginning-of-sequence token in front of what it encodes).
\<close>

datatype engine_type = DEEPSPARSE_ENGINE | OtherEngine string

record pipeline =
  cache_support_enabled :: bool
  enable_multitoken_prefill :: bool
  pipeline_engine_type :: engine_type
  sequence_length :: nat
  prompt_processing_sequence_length :: int
  max_generated_tokens :: "int option"
  force_max_tokens :: bool
  eos_token_id :: token
  pad_token_id :: token
  add_bos_token :: "bool option"

text \<open>\<open>hasattr(self.tokenizer, "add_bos_token")\<close>.\<close>

definition has_add_bos_token :: "pipeline \<Rightarrow> bool" where
  "has_add_bos_token p = (add_bos_token p \<noteq> None)"

text \<open>
  What the calls of the pipeline mutate: the two engines (\<open>None\<close> where
  \<open>initialize_engines\<close> leaves one out), each with its own session storage. Next to them
  the state records what the pipeline does to its collaborators: the engine invocations
  in order, the \<open>transfer_cache_session\<close> calls with their target and argument, what was
  pushed into the streamer, and the number of iterations of the generation loop started
  so far.
\<close>

datatype engine_id = SingleToken | MultiToken

datatype stream_event = Put "token list" | End

record engines =
  engine :: "nl_decoder_engine option"
  multitoken_engine :: "nl_decoder_engine option"
  engine_calls :: "engine_id list"
  cache_transfers :: "(engine_id \<times> kv_cache_session option) list"
  streamed :: "stream_event list"
  generate_iterations :: nat

text \<open>
  The inference of an engine is the parameter \<open>net\<close> of everything below: given which
  engine is invoked, the engine, the engine inputs and the session id, it returns a token
  and a logits array of shape \<open>[1, n, vocab]\<close> or raises, and leaves the engine (its
  session storage) in a new state.
\<close>

type_synonym 'l net =
  "engine_id \<Rightarrow> nl_decoder_engine \<Rightarrow> item list \<Rightarrow> string option \<Rightarrow>
   (py_error + (token \<times> 'l array3)) \<times> nl_decoder_engine"

text \<open>Sequencing of calls that change the engines and may raise.\<close>

definition then_do ::
  "(engines \<Rightarrow> (py_error + 'a) \<times> engines) \<Rightarrow>
   ('a \<Rightarrow> engines \<Rightarrow> (py_error + 'b) \<times> engines) \<Rightarrow>
   engines \<Rightarrow> (py_error + 'b) \<times> engines" where
  "then_do m f s = (case m s of (Inl e, s') \<Rightarrow> (Inl e, s') | (Inr x, s') \<Rightarrow> f x s')"

definition the_engine :: "engine_id \<Rightarrow> engines \<Rightarrow> nl_decoder_engine option" where
  "the_engine which s = (case which of SingleToken \<Rightarrow> engine s | MultiToken \<Rightarrow> multitoken_engine s)"

definition set_engine :: "engine_id \<Rightarrow> nl_decoder_engine \<Rightarrow> engines \<Rightarrow> engines" where
  "set_engine which e s =
     (case which of
        SingleToken \<Rightarrow> s\<lparr>engine := Some e\<rparr>
      | MultiToken \<Rightarrow> s\<lparr>multitoken_engine := Some e\<rparr>)"

text \<open>
  \<open>self.engine(engine_inputs, session_id)\<close> and \<open>self.multitoken_engine(...)\<close>. Calling
  \<open>None\<close> is a TypeError.
\<close>

definition call_engine ::
  "'l net \<Rightarrow> engine_id \<Rightarrow> item list \<Rightarrow> string option \<Rightarrow> engines \<Rightarrow>
   (py_error + (token \<times> 'l array3)) \<times> engines" where
  "call_engine net which engine_inputs sid s =
     (case the_engine which s of
        None \<Rightarrow> (Inl TypeError, s)
      | Some e \<Rightarrow>
          (case net which e engine_inputs sid of
             (r, e') \<Rightarrow>
               (r, (set_engine which e' s)\<lparr>engine_calls := engine_calls s @ [which]\<rparr>)))"

text \<open>\<open>self.engine.transfer_cache_session(entry)\<close>, on an engine that exists.\<close>

definition transfer_to :: "engine_id \<Rightarrow> kv_cache_session option \<Rightarrow> engines \<Rightarrow> engines" where
  "transfer_to which entry s =
     (case the_engine which s of
        None \<Rightarrow> s
      | Some e \<Rightarrow>
          (set_engine which (transfer_cache_session e entry) s)
            \<lparr>cache_transfers := cache_transfers s @ [(which, entry)]\<rparr>)"

text \<open>
  \<open>synchronize_engines\<close>. Reading \<open>kv_cache_storage\<close> of an engine that is \<open>None\<close> is an
  AttributeError. The entry transferred to the single-token engine is the one read from
  the multitoken engine before the first transfer.
\<close>

definition synchronize_engines :: "string \<Rightarrow> engines \<Rightarrow> (py_error + unit) \<times> engines" where
  "synchronize_engines sid s =
     (case engine s of
        None \<Rightarrow> (Inl AttributeError, s)
      | Some e \<Rightarrow>
          (case multitoken_engine s of
             None \<Rightarrow> (Inl AttributeError, s)
           | Some m \<Rightarrow>
               (let engine_session = get (kv_cache_storage e) sid;
                    multitoken_session = get (kv_cache_storage m) sid;
                    s1 = (if newer engine_session multitoken_session
                          then transfer_to MultiToken engine_session s
                          else s)
                in (Inr (), transfer_to SingleToken multitoken_session s1))))"

text \<open>
  A row of \<open>numpy.zeros((1, s))\<close> after \<open>row[-n:] = 1\<close>. For \<open>n > 0\<close> the slice starts
  \<open>n\<close> from the end (at 0 when the row is shorter), \<open>-0\<close> is the whole row, and a
  negative \<open>n\<close> makes the start a position from the left.
\<close>

definition ones_from_right :: "nat \<Rightarrow> int \<Rightarrow> int list" where
  "ones_from_right s n =
     (let start = (if n > 0 then nat (max 0 (int s - n)) else min (nat (- n)) s)
      in replicate start 0 @ replicate (s - start) 1)"

text \<open>\<open>numpy.array([[token]])\<close>: an integer array, or an object array around \<open>None\<close>.\<close>

definition np_array2 :: "token list list \<Rightarrow> ndarray" where
  "np_array2 rows =
     (if list_all (list_all (\<lambda>t. t \<noteq> None)) rows then Int2 (map (map the) rows)
      else Obj2 rows)"

text \<open>
  \<open>autoregressive_inference\<close>: one call of the single-token engine on the last token of
  the context.
\<close>

definition autoregressive_inference ::
  "'l net \<Rightarrow> pipeline \<Rightarrow> token list \<Rightarrow> string \<Rightarrow> engines \<Rightarrow>
   (py_error + (token \<times> 'l array3)) \<times> engines" where
  "autoregressive_inference net p tokens sid s =
     (case engine s of
        None \<Rightarrow> (Inl AttributeError, s)
      | Some e \<Rightarrow>
          (let num_cached_entries = num_non_blank_cache_entries e sid
           in if tokens = [] then (Inl IndexError, s)
              else
                (let new_token = last tokens;
                     num_tokens_processed = min (num_cached_entries + 1) (sequence_length p);
                     attention_mask =
                       [ones_from_right (sequence_length p) (int num_tokens_processed)];
                     positions = [[int (num_cached_entries + 1) - 1]];
                     input_ids = np_array2 [[new_token]]
                 in case create_causal_mask (NdArray [[new_token]]) (NdArray attention_mask) of
                      Inl err \<Rightarrow> (Inl err, s)
                    | Inr causal_mask \<Rightarrow>
                        (let engine_inputs =
                               map (\<lambda>name. case name of
                                      InputIds \<Rightarrow> Array input_ids
                                    | AttentionMask \<Rightarrow> Array (Int2 attention_mask)
                                    | CausalMask \<Rightarrow> Array (Int4 causal_mask)
                                    | Positions \<Rightarrow> Array (Int2 positions))
                                 (onnx_input_names_no_cache e)
                         in call_engine net SingleToken engine_inputs (Some sid) s))))"

text \<open>
  The body of the generator \<open>engine_inputs_for_prefill\<close> for chunk \<open>idx\<close>: the engine
  inputs of the multitoken engine \<open>m\<close> for one batch of tokens, built from the cache
  occupancy at the time the chunk is requested. The causal mask is computed from the
  first two inputs built, whatever they are; fewer than two is an IndexError.
\<close>

definition prefill_engine_inputs ::
  "pipeline \<Rightarrow> nl_decoder_engine \<Rightarrow> string \<Rightarrow> nat \<Rightarrow> int list \<Rightarrow> py_error + item list" where
  "prefill_engine_inputs p m sid idx token_batch =
     (let num_cached_entries = num_non_blank_cache_entries m sid;
          engine_inputs =
            concat (map (\<lambda>name. case name of
                InputIds \<Rightarrow> [[token_batch]]
              | AttentionMask \<Rightarrow>
                  [[ones_from_right (sequence_length p)
                      (prompt_processing_sequence_length p + int num_cached_entries)]]
              | CausalMask \<Rightarrow> []
              | Positions \<Rightarrow>
                  (if prompt_processing_sequence_length p = 1 then [[[int idx]]]
                   else [[map int [num_cached_entries ..<
                            nat (int num_cached_entries +
                                 prompt_processing_sequence_length p)]]]))
              (onnx_input_names_no_cache m))
      in if CausalMask \<in> set (onnx_input_names_no_cache m)
         then
           (if length engine_inputs < 2 then Inl IndexError
            else
              (case create_causal_mask (NdArray (engine_inputs ! 0))
                      (NdArray (engine_inputs ! 1)) of
                 Inl err \<Rightarrow> Inl err
               | Inr causal_mask \<Rightarrow>
                   Inr (map (\<lambda>a. Array (Int2 a)) engine_inputs @ [Array (Int4 causal_mask)])))
         else Inr (map (\<lambda>a. Array (Int2 a)) engine_inputs))"

text \<open>
  The chunks of \<open>engine_inputs_for_prefill\<close>: \<open>len(tokens) // chunk\<close> full batches of
  tokens; a remainder shorter than a chunk is left out. The floor division raises
  ZeroDivisionError for a chunk size of 0, and a negative quotient is an empty \<open>range\<close>.
\<close>

definition token_batches :: "int \<Rightarrow> int list \<Rightarrow> py_error + int list list" where
  "token_batches chunk tokens =
     (if chunk = 0 then Inl ZeroDivisionError
      else
        (let num_batches = int (length tokens) div chunk
         in Inr (map (\<lambda>i. slice (i * nat chunk) ((i + 1) * nat chunk) tokens)
                   [0..<nat num_batches])))"

section \<open>\<open>prompt_inference\<close> and \<open>engine_forward\<close> (text_generation.py)\<close>

text \<open>
  \<open>engine_inputs[0][engine_inputs[1].nonzero()].tolist()\<close>: the entries of the input ids
  at the positions, in row-major order, where the attention mask is not zero. Fewer than
  two engine inputs is an IndexError, and so is a position outside the input ids. The
  model covers rank-2 integer arrays in both places; an element that is no array has no
  \<open>nonzero\<close> (AttributeError), and the remaining combinations, which the pipeline never
  builds, are given as TypeError.
\<close>

definition nonzero :: "int array2 \<Rightarrow> (nat \<times> nat) list" where
  "nonzero m =
     concat (map (\<lambda>r. map (\<lambda>c. (r, c)) (filter (\<lambda>c. m ! r ! c \<noteq> 0) [0..<length (m ! r)]))
               [0..<length m])"

definition tokens_by_attention_mask :: "item list \<Rightarrow> py_error + int list" where
  "tokens_by_attention_mask engine_inputs =
     (if length engine_inputs < 2 then Inl IndexError
      else
        (case engine_inputs ! 1 of
           Array (Int2 m) \<Rightarrow>
             (case engine_inputs ! 0 of
                Array (Int2 a) \<Rightarrow>
                  if list_all (\<lambda>(r, c). r < length a \<and> c < length (a ! r)) (nonzero m)
                  then Inr (map (\<lambda>(r, c). a ! r ! c) (nonzero m))
                  else Inl IndexError
              | _ \<Rightarrow> Inl TypeError)
         | Array _ \<Rightarrow> Inl TypeError
         | _ \<Rightarrow> Inl AttributeError))"

definition remove_bos_token_if_applicable :: "pipeline \<Rightarrow> int list \<Rightarrow> int list" where
  "remove_bos_token_if_applicable p tokens =
     (if has_add_bos_token p then drop 1 tokens else tokens)"

text \<open>
  The loop of \<open>prompt_inference\<close> over the generator \<open>engine_inputs_for_prefill\<close>, from
  chunk \<open>idx\<close> on. The generator is lazy: the inputs of a chunk are built when the loop
  asks for them, after the engine call of the chunk before. The loop carries
  \<open>new_token\<close>, \<open>num_tokens_processed\<close> and \<open>prompt_logits\<close>.
\<close>

fun prefill_chunks ::
  "'l net \<Rightarrow> pipeline \<Rightarrow> string \<Rightarrow> nat \<Rightarrow> int list list \<Rightarrow>
   token \<times> int \<times> 'l array3 list \<Rightarrow> engines \<Rightarrow>
   (py_error + (token \<times> int \<times> 'l array3 list)) \<times> engines" where
  "prefill_chunks net p sid idx [] acc s = (Inr acc, s)"
| "prefill_chunks net p sid idx (token_batch # rest) acc s =
     (case multitoken_engine s of
        None \<Rightarrow> (Inl AttributeError, s)
      | Some m \<Rightarrow>
          (case prefill_engine_inputs p m sid idx token_batch of
             Inl err \<Rightarrow> (Inl err, s)
           | Inr engine_inputs \<Rightarrow>
               (case call_engine net MultiToken engine_inputs (Some sid) s of
                  (Inl err, s') \<Rightarrow> (Inl err, s')
                | (Inr (new_token, new_logits), s') \<Rightarrow>
                    prefill_chunks net p sid (Suc idx) rest
                      (new_token,
                       fst (snd acc) + prompt_processing_sequence_length p,
                       snd (snd acc) @ [new_logits]) s')))"

text \<open>
  The loop of \<open>prompt_inference\<close> over the tokens that no chunk has processed: each is
  appended to \<open>run_tokens\<close> and run through the single-token engine. The loop carries
  \<open>new_token\<close> and \<open>prompt_logits\<close>.
\<close>

fun prefill_single ::
  "'l net \<Rightarrow> pipeline \<Rightarrow> string \<Rightarrow> int list \<Rightarrow> token list \<Rightarrow>
   token \<times> 'l array3 list \<Rightarrow> engines \<Rightarrow>
   (py_error + (token \<times> 'l array3 list)) \<times> engines" where
  "prefill_single net p sid [] run_tokens acc s = (Inr acc, s)"
| "prefill_single net p sid (token # rest) run_tokens acc s =
     (case autoregressive_inference net p (run_tokens @ [Some token]) sid s of
        (Inl err, s') \<Rightarrow> (Inl err, s')
      | (Inr (new_token, new_logits), s') \<Rightarrow>
          prefill_single net p sid rest (run_tokens @ [Some token])
            (new_token, snd acc @ [new_logits]) s')"

text \<open>\<open>storage.has_session(session_id)\<close> on the storage of an engine that may be \<open>None\<close>.\<close>

definition engine_has_session ::
  "nl_decoder_engine option \<Rightarrow> string \<Rightarrow> py_error + bool" where
  "engine_has_session e sid =
     (case e of None \<Rightarrow> Inl AttributeError | Some e \<Rightarrow> Inr (has_session (kv_cache_storage e) sid))"

text \<open>
  The first half of \<open>prompt_inference\<close>: when the prompt is longer than a chunk and
  multitoken prefill is enabled, synchronize, strip the leading token of a prompt whose
  session the multitoken engine has, and run the full chunks. It returns \<open>tokens\<close>,
  \<open>new_token\<close>, \<open>num_tokens_processed\<close> and \<open>prompt_logits\<close>.
\<close>

definition prompt_inference_chunks ::
  "'l net \<Rightarrow> pipeline \<Rightarrow> int list \<Rightarrow> string \<Rightarrow> engines \<Rightarrow>
   (py_error + (int list \<times> token \<times> int \<times> 'l array3 list)) \<times> engines" where
  "prompt_inference_chunks net p tokens sid s =
     (if int (length tokens) > prompt_processing_sequence_length p \<and>
         enable_multitoken_prefill p
      then
        then_do (synchronize_engines sid) (\<lambda>_ s1.
          case engine_has_session (multitoken_engine s1) sid of
            Inl err \<Rightarrow> (Inl err, s1)
          | Inr has \<Rightarrow>
              (let tokens = (if has then remove_bos_token_if_applicable p tokens else tokens)
               in case token_batches (prompt_processing_sequence_length p) tokens of
                    Inl err \<Rightarrow> (Inl err, s1)
                  | Inr batches \<Rightarrow>
                      then_do (prefill_chunks net p sid 0 batches (None, 0, []))
                        (\<lambda>acc. Pair (Inr (tokens, acc))) s1)) s
      else (Inr (tokens, None, 0, []), s))"

text \<open>
  The second half of \<open>prompt_inference\<close>: synchronize again, strip the leading token of
  a prompt whose session the single-token engine has when no chunk was processed, run
  the remaining tokens one at a time, and append the last new token to the tokens.
\<close>

definition prompt_inference_single ::
  "'l net \<Rightarrow> pipeline \<Rightarrow> string \<Rightarrow> int list \<times> token \<times> int \<times> 'l array3 list \<Rightarrow> engines \<Rightarrow>
   (py_error + (token list \<times> 'l array3 list)) \<times> engines" where
  "prompt_inference_single net p sid st s =
     (case st of (tokens, new_token, num_tokens_processed, prompt_logits) \<Rightarrow>
        (let run_tokens = (if num_tokens_processed = 0 then []
                           else map Some (take (nat num_tokens_processed) tokens))
         in then_do (synchronize_engines sid) (\<lambda>_ s2.
              case engine_has_session (engine s2) sid of
                Inl err \<Rightarrow> (Inl err, s2)
              | Inr has \<Rightarrow>
                  (let tokens = (if has \<and> num_tokens_processed = 0
                                 then remove_bos_token_if_applicable p tokens else tokens)
                   in then_do
                        (prefill_single net p sid (drop (nat num_tokens_processed) tokens)
                           run_tokens (new_token, prompt_logits))
                        (\<lambda>acc. Pair (Inr (map Some tokens @ [fst acc], snd acc))) s2)) s))"

definition prompt_inference ::
  "'l net \<Rightarrow> pipeline \<Rightarrow> item list \<Rightarrow> string \<Rightarrow> engines \<Rightarrow>
   (py_error + (token list \<times> 'l array3 list)) \<times> engines" where
  "prompt_inference net p engine_inputs sid s =
     (case tokens_by_attention_mask engine_inputs of
        Inl err \<Rightarrow> (Inl err, s)
      | Inr tokens \<Rightarrow>
          then_do (prompt_inference_chunks net p tokens sid)
            (prompt_inference_single net p sid) s)"

text \<open>
  \<open>self.max_generated_tokens if self.max_generated_tokens and
  self.max_generated_tokens > 0 else 100 * self.sequence_length\<close>.
\<close>

definition max_tokens :: "pipeline \<Rightarrow> int" where
  "max_tokens p =
     (case max_generated_tokens p of
        None \<Rightarrow> 100 * int (sequence_length p)
      | Some m \<Rightarrow> if m \<noteq> 0 \<and> m > 0 then m else 100 * int (sequence_length p))"

text \<open>\<open>if streamer is not None: streamer.put(...)\<close> and \<open>streamer.end()\<close>.\<close>

definition stream :: "bool \<Rightarrow> stream_event \<Rightarrow> engines \<Rightarrow> engines" where
  "stream streamer ev s = (if streamer then s\<lparr>streamed := streamed s @ [ev]\<rparr> else s)"

text \<open>The start of an iteration of the generation loop, counted in the state.\<close>

definition begin_iteration :: "engines \<Rightarrow> engines" where
  "begin_iteration s = s\<lparr>generate_iterations := Suc (generate_iterations s)\<rparr>"

text \<open>
  The \<open>while\<close> loop of \<open>engine_forward\<close>, with the loop bound \<open>bound\<close>
  (\<open>max_tokens\<close> in the source). It carries \<open>tokens\<close>, \<open>generated_tokens\<close> and
  \<open>generated_logits\<close>.
\<close>

function token_generation ::
  "'l net \<Rightarrow> pipeline \<Rightarrow> string \<Rightarrow> bool \<Rightarrow> int \<Rightarrow>
   token list \<times> token list \<times> 'l array3 list \<Rightarrow> engines \<Rightarrow>
   (py_error + (token list \<times> token list \<times> 'l array3 list)) \<times> engines" where
  "token_generation net p sid streamer bound st s =
     (case st of (tokens, generated_tokens, generated_logits) \<Rightarrow>
        if int (length generated_tokens) \<le> bound
        then
          (case autoregressive_inference net p tokens sid (begin_iteration s) of
             (Inl err, s') \<Rightarrow> (Inl err, s')
           | (Inr (token, logits), s') \<Rightarrow>
               if token = eos_token_id p \<and> \<not> force_max_tokens p
               then (Inr (tokens @ [token], generated_tokens @ [token],
                          generated_logits @ [logits]),
                     stream streamer (Put [token]) s')
               else token_generation net p sid streamer bound
                      (tokens @ [token], generated_tokens @ [token],
                       generated_logits @ [logits])
                      (stream streamer (Put [token]) s'))
        else (Inr st, s))"
  by pat_completeness auto
termination
  by (relation "measure (\<lambda>(net, p, sid, streamer, bound, st, s).
        nat (bound + 1 - int (length (fst (snd st)))))") auto

declare token_generation.simps [simp del]

text \<open>
  \<open>engine_inputs.pop(next(idx for idx, item in enumerate(engine_inputs) if
  isinstance(item, str)))\<close>: the first string is taken out of the engine inputs; \<open>next\<close>
  raises StopIteration when there is none.
\<close>

definition pop_session_id :: "item list \<Rightarrow> py_error + (string \<times> item list)" where
  "pop_session_id engine_inputs =
     (case find is_str engine_inputs of
        Some (SessionId sid) \<Rightarrow> Inr (sid, remove1 (SessionId sid) engine_inputs)
      | _ \<Rightarrow> Inl StopIteration)"

text \<open>
  \<open>numpy.concatenate(arrays, axis=1)\<close> on arrays of rank 3: row \<open>i\<close> of the result is
  the rows \<open>i\<close> of the arrays, one after the other. numpy raises ValueError for an empty
  sequence and when the arrays disagree on the first or the third dimension.
\<close>

definition concatenate_axis1 :: "'l array3 list \<Rightarrow> py_error + 'l array3" where
  "concatenate_axis1 arrays =
     (if arrays = [] then Inl ValueError
      else if \<not> list_all (\<lambda>a. shape0 a = shape0 (hd arrays) \<and> shape2 a = shape2 (hd arrays))
                   arrays
      then Inl ValueError
      else Inr (map (\<lambda>i. concat (map (\<lambda>a. a ! i) arrays)) [0..<shape0 (hd arrays)]))"

text \<open>
  The per-request context of \<open>engine_forward\<close>: whether a streamer was supplied and the
  flag \<open>include_prompt_logits\<close>.
\<close>

record forward_context =
  streamer :: bool
  include_prompt_logits :: bool

text \<open>
  The tokens \<open>engine_forward\<close> returns: \<open>numpy.array([tokens])\<close> around what the engine
  returned when there is no cache support, \<open>numpy.array([generated_tokens])\<close> otherwise.
\<close>

datatype token_array = Tokens1 "token list" | Tokens2 "token list list"

text \<open>
  The part of \<open>engine_forward\<close> after the prompt inference: the generation loop, the
  extra inference that populates the cache with the last token (its result is dropped),
  the end of the stream and the returned triple. \<open>tokens[-1]\<close> on an empty list is an
  IndexError.
\<close>

definition generate ::
  "'l net \<Rightarrow> pipeline \<Rightarrow> forward_context \<Rightarrow> string \<Rightarrow> token list \<times> 'l array3 list \<Rightarrow> engines \<Rightarrow>
   (py_error + (token_array \<times> 'l array3 \<times> string option list)) \<times> engines" where
  "generate net p ctx sid pr s =
     (case pr of (tokens, prompt_logits) \<Rightarrow>
        if tokens = [] then (Inl IndexError, stream (streamer ctx) (Put tokens) s)
        else
        (let s0 = stream (streamer ctx) (Put tokens) s;
             generated_tokens = [last tokens];
             generated_logits = (if include_prompt_logits ctx then prompt_logits else [])
         in then_do
              (token_generation net p sid (streamer ctx) (max_tokens p)
                 (tokens, generated_tokens, generated_logits))
              (\<lambda>(tokens, generated_tokens, generated_logits).
                 then_do (autoregressive_inference net p tokens sid)
                   (\<lambda>_ s2.
                      (case concatenate_axis1 generated_logits of
                         Inl err \<Rightarrow> Inl err
                       | Inr logits \<Rightarrow> Inr (Tokens2 [generated_tokens], logits, [Some sid]),
                       stream (streamer ctx) End s2)))
              s0))"

definition engine_forward ::
  "'l net \<Rightarrow> pipeline \<Rightarrow> item list \<Rightarrow> forward_context \<Rightarrow> engines \<Rightarrow>
   (py_error + (token_array \<times> 'l array3 \<times> string option list)) \<times> engines" where
  "engine_forward net p engine_inputs ctx s =
     (if cache_support_enabled p
      then
        (case pop_session_id engine_inputs of
           Inl err \<Rightarrow> (Inl err, s)
         | Inr (session_id, engine_inputs) \<Rightarrow>
             then_do (prompt_inference net p engine_inputs session_id)
               (generate net p ctx session_id) s)
      else
        then_do (call_engine net MultiToken engine_inputs None)
          (\<lambda>(tokens, prompt_logits). Pair (Inr (Tokens1 [tokens], prompt_logits, [None]))) s)"

section \<open>Construction of the pipeline\<close>

text \<open>
  What the constructor reads: its own arguments, the \<open>engine_type\<close> and
  \<open>sequence_length\<close> passed on to the base class, what the model file answers
  (\<open>causal_mask_input_present\<close>, \<open>any(default_cached_outputs(...))\<close>, the declared input
  names) and the tokenizer's settings. \<open>deterministic\<close>, \<open>sampling_temperature\<close> and
  \<open>use_deepsparse_cache\<close> are only handed to the engines and are left out.
\<close>

record pipeline_args =
  arg_max_generated_tokens :: "int option"
  arg_prompt_processing_sequence_length :: int
  arg_force_max_tokens :: bool
  arg_engine_type :: engine_type
  arg_sequence_length :: nat
  model_has_causal_mask_input :: bool
  model_has_cached_outputs :: bool
  model_input_names :: "input_name list"
  tokenizer_eos_token_id :: token
  tokenizer_pad_token_id :: token
  tokenizer_add_bos_token :: "bool option"

text \<open>
  Modelled from the spec: the constructor of \<open>NLDecoderEngine\<close>, whose class is missing
  from the snapshot. Sessions are created lazily on first use, so a new engine has an
  empty session storage.
\<close>

definition new_engine :: "int \<Rightarrow> input_name list \<Rightarrow> nl_decoder_engine" where
  "new_engine n names =
     \<lparr>input_ids_length = n, onnx_input_names_no_cache = names,
      kv_cache_storage = Map.empty\<rparr>"

definition initialize_engines ::
  "pipeline \<Rightarrow> input_name list \<Rightarrow>
   py_error + (nl_decoder_engine option \<times> nl_decoder_engine option)" where
  "initialize_engines p names =
     (if cache_support_enabled p \<and>
         (pipeline_engine_type p = DEEPSPARSE_ENGINE \<and>
          int (sequence_length p) \<le> prompt_processing_sequence_length p \<and>
          enable_multitoken_prefill p)
      then Inl ValueError
      else
        (let multitoken_engine =
               (if (cache_support_enabled p \<and> enable_multitoken_prefill p) \<or>
                   \<not> cache_support_enabled p
                then Some (new_engine (prompt_processing_sequence_length p) names)
                else None);
             engine = (if cache_support_enabled p then Some (new_engine 1 names) else None)
         in if \<not> (engine \<noteq> None \<or> multitoken_engine \<noteq> None) then Inl AssertionError
            else Inr (engine, multitoken_engine)))"

text \<open>
  \<open>TextGenerationPipeline.__init__\<close>: the pipeline and its engines, or the exception the
  constructor raises. Comparing \<open>None > 1\<close> is a TypeError. A tokenizer without a pad token
  pads with its end-of-sequence token.
\<close>

definition text_generation_pipeline :: "pipeline_args \<Rightarrow> py_error + (pipeline \<times> engines)" where
  "text_generation_pipeline a =
     (let enable_multitoken_prefill = model_has_causal_mask_input a;
          cache_support_enabled = model_has_cached_outputs a
      in if \<not> cache_support_enabled \<and> arg_max_generated_tokens a = None then Inl TypeError
         else if \<not> cache_support_enabled \<and> the (arg_max_generated_tokens a) > 1
         then Inl ValueError
         else
           (let p = \<lparr>cache_support_enabled = cache_support_enabled,
                     enable_multitoken_prefill = enable_multitoken_prefill,
                     pipeline_engine_type = arg_engine_type a,
                     sequence_length = arg_sequence_length a,
                     prompt_processing_sequence_length = arg_prompt_processing_sequence_length a,
                     max_generated_tokens = arg_max_generated_tokens a,
                     force_max_tokens = arg_force_max_tokens a,
                     eos_token_id = tokenizer_eos_token_id a,
                     pad_token_id = (if tokenizer_pad_token_id a = None
                                     then tokenizer_eos_token_id a
                                     else tokenizer_pad_token_id a),
                     add_bos_token = tokenizer_add_bos_token a\<rparr>
            in case initialize_engines p (model_input_names a) of
                 Inl err \<Rightarrow> Inl err
               | Inr (e, m) \<Rightarrow>
                   Inr (p, \<lparr>engine = e, multitoken_engine = m,
                            engine_calls = [], cache_transfers = [], streamed = [],
                            generate_iterations = 0\<rparr>)))"

text \<open>
  The vocabulary of the statement about the leading token. \<open>chunked\<close>: the prompt takes the
  multitoken path. \<open>session_known\<close>: after the synchronization that precedes the check,
  the engine the path uses (the multitoken engine on the chunked path, the single-token
  engine otherwise) has a session for the id.
\<close>

definition chunked :: "pipeline \<Rightarrow> int list \<Rightarrow> bool" where
  "chunked p tokens =
     (int (length tokens) > prompt_processing_sequence_length p \<and> enable_multitoken_prefill p)"

definition session_known :: "pipeline \<Rightarrow> int list \<Rightarrow> string \<Rightarrow> engines \<Rightarrow> bool" where
  "session_known p tokens sid s =
     (let s1 = snd (synchronize_engines sid s)
      in case (if chunked p tokens then multitoken_engine s1 else engine s1) of
           None \<Rightarrow> False
         | Some e \<Rightarrow> has_session (kv_cache_storage e) sid)"

section \<open>Concrete scenarios\<close>

text \<open>
  Two engines that are already synchronized: both stores hold the same entry, with the
  same timestamp, for the session \<open>s\<close>.
\<close>

definition synced_session :: kv_cache_session where
  "synced_session = \<lparr>kv_session_id = ''s'', timestamp = 5, num_non_blank_entries = 3\<rparr>"

definition synced_engine :: "int \<Rightarrow> nl_decoder_engine" where
  "synced_engine n =
     \<lparr>input_ids_length = n,
      onnx_input_names_no_cache = [InputIds, AttentionMask, Positions, CausalMask],
      kv_cache_storage = [''s'' \<mapsto> synced_session]\<rparr>"

definition synced_engines :: engines where
  "synced_engines =
     \<lparr>engine = Some (synced_engine 1), multitoken_engine = Some (synced_engine 4),
      engine_calls = [], cache_transfers = [], streamed = [], generate_iterations = 0\<rparr>"

text \<open>
  Constructor arguments with a prompt chunk size equal to the sequence length, for a model
  with cache support and a causal mask input: once on the DeepSparse engine, once on
  another engine.
\<close>

definition deepsparse_args :: pipeline_args where
  "deepsparse_args =
     \<lparr>arg_max_generated_tokens = Some 10,
      arg_prompt_processing_sequence_length = 8,
      arg_force_max_tokens = False,
      arg_engine_type = DEEPSPARSE_ENGINE,
      arg_sequence_length = 8,
      model_has_causal_mask_input = True,
      model_has_cached_outputs = True,
      model_input_names = [InputIds, AttentionMask, Positions, CausalMask],
      tokenizer_eos_token_id = Some 5,
      tokenizer_pad_token_id = None,
      tokenizer_add_bos_token = None\<rparr>"

definition onnxruntime_args :: pipeline_args where
  "onnxruntime_args = deepsparse_args\<lparr>arg_engine_type := OtherEngine ''onnxruntime''\<rparr>"

text \<open>
  An engine for the scenarios: it appends the tokens of its input to the session (one
  more write, \<open>input_ids_length\<close> more rows), and answers with the new number of rows as
  the token and one logits entry per input token.
\<close>

definition counting_net :: "int net" where
  "counting_net which e engine_inputs sid =
     (case sid of
        None \<Rightarrow> (Inl EngineError, e)
      | Some k \<Rightarrow>
          (let total = num_non_blank_cache_entries e k + nat (input_ids_length e);
               written = (case kv_cache_storage e k of None \<Rightarrow> 0 | Some c \<Rightarrow> timestamp c)
           in (Inr (Some (int total), [replicate (nat (input_ids_length e)) [int total]]),
               e\<lparr>kv_cache_storage := (kv_cache_storage e)
                    (k \<mapsto> \<lparr>kv_session_id = k, timestamp = written + 1,
                            num_non_blank_entries = total\<rparr>)\<rparr>)))"

text \<open>
  Scenario B of the spec: a cache-enabled model with sequence length 8 and prompt chunk
  size 4, freshly constructed engines, and a prompt of three tokens (none of them masked
  out). The tokenizer has no attribute \<open>add_bos_token\<close> and the end-of-sequence token
  is 5. \<open>bos_pipeline\<close> is the same pipeline with a tokenizer whose \<open>add_bos_token\<close> is
  \<open>True\<close>, \<open>bos_off_pipeline\<close> with one whose \<open>add_bos_token\<close> is \<open>False\<close> (it puts no
  beginning-of-sequence token in front of a prompt), and \<open>early_eos_pipeline\<close> with the
  end-of-sequence token 4.
\<close>

definition scenario_pipeline :: pipeline where
  "scenario_pipeline =
     \<lparr>cache_support_enabled = True, enable_multitoken_prefill = True,
      pipeline_engine_type = DEEPSPARSE_ENGINE, sequence_length = 8,
      prompt_processing_sequence_length = 4, max_generated_tokens = Some 10,
      force_max_tokens = False, eos_token_id = Some 5, pad_token_id = Some 5,
      add_bos_token = None\<rparr>"

definition bos_pipeline :: pipeline where
  "bos_pipeline = scenario_pipeline\<lparr>add_bos_token := Some True\<rparr>"

definition bos_off_pipeline :: pipeline where
  "bos_off_pipeline = scenario_pipeline\<lparr>add_bos_token := Some False\<rparr>"


definition fresh_engines :: engines where
  "fresh_engines =
     \<lparr>engine = Some (new_engine 1 [InputIds, AttentionMask, Positions, CausalMask]),
      multitoken_engine = Some (new_engine 4 [InputIds, AttentionMask, Positions, CausalMask]),
      engine_calls = [], cache_transfers = [], streamed = [], generate_iterations = 0\<rparr>"

definition prompt_inputs :: "item list" where
  "prompt_inputs = [Array (Int2 [[11, 12, 13]]), Array (Int2 [[1, 1, 1]])]"

definition no_streamer :: forward_context where
  "no_streamer = \<lparr>streamer = False, include_prompt_logits = False\<rparr>"

section \<open>Properties of \<open>create_causal_mask\<close>\<close>

lemma chunks_concat:
  "\<forall>r\<in>set m. length r = s \<Longrightarrow> chunks (length m) s (concat m) = m"
  by (induction m) auto

lemma rectangular_rows: "rectangular m \<Longrightarrow> \<forall>r\<in>set m. length r = shape1 m"
  by (simp add: rectangular_def list_all_iff)

lemma length_concat_rect:
  "\<forall>r\<in>set m. length r = s \<Longrightarrow> length (concat m) = length m * s"
  by (induction m) auto

lemma create_causal_mask_unfold:
  "create_causal_mask input_ids attention_mask =
     (if input_ids_length_of input_ids = 1
      then reshape_b11s (mask_rows attention_mask) (batch_size_of input_ids)
             (shape1 (mask_rows attention_mask))
      else if shape1 (mask_rows attention_mask) < input_ids_length_of input_ids
      then Inl ValueError
      else Inr (map (map (map (zero_left (count_zeros (mask_rows attention_mask)))))
             (unzeroed_causal_mask (batch_size_of input_ids)
                (input_ids_length_of input_ids) (shape1 (mask_rows attention_mask)))))"
  by (cases input_ids; cases attention_mask)
     (simp_all add: create_causal_mask_def batch_size_of_def input_ids_length_of_def
        mask_rows_def shape1_def)

text \<open>
  C4. For well-formed inputs with a single new token (input length 1) the causal mask is
  the attention mask itself, each of its rows wrapped into shape \<open>[1, 1, S]\<close>: the
  attention mask reshaped to \<open>[batch, 1, 1, S]\<close>, with no triangle and no zeroing.
\<close>

theorem create_causal_mask_single_token:
  assumes "valid_mask_inputs input_ids attention_mask"
    and "input_ids_length_of input_ids = 1"
  shows "create_causal_mask input_ids attention_mask =
           Inr (map (\<lambda>r. [[r]]) (mask_rows attention_mask))"
proof -
  let ?m = "mask_rows attention_mask"
  from assms(1) have rect: "\<forall>r\<in>set ?m. length r = shape1 ?m"
    by (simp add: valid_mask_inputs_def rectangular_rows)
  from assms(1) have b: "batch_size_of input_ids = length ?m"
    by (simp add: valid_mask_inputs_def)
  have r: "reshape_b11s ?m (length ?m) (shape1 ?m) = Inr (map (\<lambda>r. [[r]]) ?m)"
    using rect by (simp add: reshape_b11s_def chunks_concat length_concat_rect)
  show ?thesis
    by (simp add: create_causal_mask_unfold assms(2) b r)
qed

theorem create_causal_mask_single_token_witness:
  "valid_mask_inputs (NdArray [[7::int], [9]]) (NdArray [[0, 1, 1], [0, 0, 1]]) \<and>
   input_ids_length_of (NdArray [[7::int], [9]]) = 1 \<and>
   create_causal_mask (NdArray [[7::int], [9]]) (NdArray [[0, 1, 1], [0, 0, 1]]) =
     Inr [[[[0, 1, 1]]], [[[0, 0, 1]]]]"
proof -
  have v: "valid_mask_inputs (NdArray [[7::int], [9]]) (NdArray [[0, 1, 1], [0, 0, 1]])"
    by (simp add: valid_mask_inputs_def rectangular_def shape1_def shape0_def
        mask_rows_def batch_size_of_def input_ids_length_of_def)
  have l: "input_ids_length_of (NdArray [[7::int], [9]]) = 1"
    by (simp add: input_ids_length_of_def shape1_def)
  show ?thesis
    using v l create_causal_mask_single_token [OF v l] by (simp add: mask_rows_def)
qed

text \<open>
  C3. The code at a batch of two rows, each with one leading zero in its attention mask
  (\<open>z = 1\<close>): the zeros are counted over the whole array, so two columns are zeroed and
  column 1, which lies in the range \<open>z..S\<close>, loses the ones it had before the zeroing.
\<close>

theorem create_causal_mask_batch_zeroing:
  "create_causal_mask (NdArray [[1, 2], [3, 4::int]]) (NdArray [[0, 1, 1, 1], [0, 1, 1, 1]]) =
     Inr [[[[0, 0, 1, 0], [0, 0, 1, 1]]], [[[0, 0, 1, 0], [0, 0, 1, 1]]]] \<and>
   unzeroed_causal_mask 2 2 4 =
     [[[[1, 1, 1, 0], [1, 1, 1, 1]]], [[[1, 1, 1, 0], [1, 1, 1, 1]]]]"
  by code_simp

lemma count_zeros_left_padded:
  "count_zeros [replicate z 0 @ replicate n 1] = z"
  by (simp add: count_zeros_def)

text \<open>
  With a batch of one and a left-padded attention mask, \<open>z\<close> zeros followed by ones,
  the zero count is \<open>z\<close>: in every row of the mask of a multi-token input the first
  \<open>z\<close> columns are zero and the columns from \<open>z\<close> on are those of the past block and
  the triangle.
\<close>

lemma create_causal_mask_left_padded_row:
  assumes "batch_size_of input_ids = 1"
    and "input_ids_length_of input_ids = l" and "l \<noteq> 1" and "l \<le> s" and "z \<le> s"
    and "mask_rows attention_mask = [replicate z 0 @ replicate (s - z) 1]"
  shows "create_causal_mask input_ids attention_mask =
           Inr [[map (\<lambda>i. replicate z 0 @ drop z (replicate (s - l) 1 @ tril_row l i))
                   [0..<l]]]"
proof -
  have s: "shape1 (mask_rows attention_mask) = s"
    using assms(5,6) by (simp add: shape1_def)
  have len: "\<And>i. length (replicate (s - l) (1::int) @ tril_row l i) = s"
    using assms(4) by (simp add: tril_row_def)
  have zl: "\<And>i. zero_left z (replicate (s - l) 1 @ tril_row l i) =
               replicate z 0 @ drop z (replicate (s - l) 1 @ tril_row l i)"
    unfolding zero_left_def len using assms(5) by (simp add: min_absorb1)
  have cz: "count_zeros (mask_rows attention_mask) = z"
    by (simp add: assms(6) count_zeros_left_padded)
  have "create_causal_mask input_ids attention_mask =
          Inr (map (map (map (zero_left z))) (unzeroed_causal_mask 1 l s))"
    using assms(3,4) by (simp add: create_causal_mask_unfold assms(1,2) s cz)
  then show ?thesis
    by (simp add: unzeroed_causal_mask_def zl)
qed

section \<open>Properties of \<open>split_engine_inputs\<close> and \<open>join_engine_outputs\<close>\<close>

lemma distribute_session_ids_enough:
  "i + length batches \<le> length ids \<Longrightarrow>
   distribute_session_ids (Some ids) i batches =
     Inr (map (\<lambda>j. batches ! j @ [SessionId (ids ! (i + j))]) [0..<length batches])"
proof (induction batches arbitrary: i)
  case Nil
  then show ?case by simp
next
  case (Cons b bs)
  have "map (\<lambda>j. (b # bs) ! j @ [SessionId (ids ! (i + j))]) [0..<length (b # bs)] =
        (b @ [SessionId (ids ! i)]) #
        map (\<lambda>j. bs ! j @ [SessionId (ids ! (Suc i + j))]) [0..<length bs]"
    by (simp add: upt_conv_Cons map_Suc_upt [symmetric] del: upt_Suc)
  with Cons show ?case by simp
qed

lemma fold_max_ge_init: "a \<le> fold max xs (a::nat)"
  by (induction xs arbitrary: a) (auto intro: le_trans [OF max.cobounded2])

lemma fold_max_ge_elem: "x \<in> set xs \<Longrightarrow> x \<le> fold max xs (a::nat)"
proof (induction xs arbitrary: a)
  case Nil
  then show ?case by simp
next
  case (Cons y ys)
  show ?case
  proof (cases "x = y")
    case True
    have "x \<le> max x a" by simp
    also have "\<dots> \<le> fold max ys (max x a)" by (rule fold_max_ge_init)
    finally show ?thesis using True by simp
  next
    case False
    with Cons show ?thesis by simp
  qed
qed

lemma those_ok_map_Inr:
  "\<forall>x\<in>set xs. f x = Inr (g x) \<Longrightarrow> those_ok (map f xs) = Inr (map g xs)"
  by (induction xs) auto

lemma concatenate_axis0_ok:
  "arrays \<noteq> [] \<Longrightarrow> \<forall>a\<in>set arrays. dims a = d \<Longrightarrow>
   concatenate_axis0 dims arrays = Inr (concat arrays)"
  by (cases arrays) (auto simp: concatenate_axis0_def list_all_iff)

lemma data_split_unit:
  assumes "arrays \<noteq> []" and "\<forall>a\<in>set arrays. nd_shape0 a = n"
  shows "data_split_engine_inputs (map Array arrays) 1 =
           Inr (map (\<lambda>j. map (\<lambda>a. Array (nd_slice j (Suc j) a)) arrays) [0..<n], n)"
proof -
  have h: "nd_shape0 (the_array (hd (map Array arrays))) = n"
    using assms by (cases arrays) (auto simp: the_array_def)
  have a: "list_all is_array (map Array arrays)"
    by (simp add: list_all_iff is_array_def)
  show ?thesis
    using assms(1) h a
    by (simp add: data_split_engine_inputs_def Let_def the_array_def o_def)
qed

lemma split_unit:
  assumes "first_session_ids items = Some ids"
    and "filter (\<lambda>x. \<not> is_list x) items = map Array arrays"
    and "arrays \<noteq> []"
    and "\<forall>a\<in>set arrays. nd_shape0 a = length ids"
  shows "split_engine_inputs data_split_engine_inputs items 1 =
           Inr (unit_batches arrays ids, length ids)"
proof -
  let ?bs = "map (\<lambda>j. map (\<lambda>a. Array (nd_slice j (Suc j) a)) arrays) [0..<length ids]"
  have d: "distribute_session_ids (Some ids) 0 ?bs = Inr (unit_batches arrays ids)"
    using distribute_session_ids_enough [of 0 ?bs ids]
    by (simp add: unit_batches_def)
  show ?thesis
    by (simp add: split_engine_inputs_def assms(1,2)
        data_split_unit [OF assms(3,4), unfolded One_nat_def] d)
qed

lemma carried_unit:
  "i < length ids \<Longrightarrow> carried_session_ids (unit_batches arrays ids ! i) = [ids ! i]"
  by (simp add: unit_batches_def carried_session_ids_def o_def)

lemma shape1_right_pad:
  "r \<noteq> [] \<Longrightarrow> \<forall>v\<in>set r. length v = k \<Longrightarrow> shape1 (right_pad m f r) = k"
  by (cases r) (auto simp: shape1_def right_pad_def)

lemma join_unit:
  fixes t :: "nat \<Rightarrow> int list" and l :: "nat \<Rightarrow> 'l::zero list list"
  assumes n: "0 < n"
    and len: "length ids = n"
    and vocab: "\<forall>i<n. l i \<noteq> [] \<and> (\<forall>v\<in>set (l i). length v = vocab)"
  shows "join_engine_outputs True pad (map (\<lambda>i. ([t i], [l i], [ids ! i])) [0..<n]) n =
     Inr (map (\<lambda>i. right_pad (longest t n) pad (t i)) [0..<n],
          map (\<lambda>i. right_pad (longest l n) (replicate vocab 0) (l i)) [0..<n],
          ids)"
proof -
  let ?outs = "map (\<lambda>i. ([t i], [l i], [ids ! i])) [0..<n]"
  have ne: "?outs \<noteq> []" using n by simp
  have toks: "map fst ?outs = map (\<lambda>i. [t i]) [0..<n]" by (simp add: o_def)
  have logs: "map (fst \<circ> snd) ?outs = map (\<lambda>i. [l i]) [0..<n]" by (simp add: o_def)
  have sids: "map (snd \<circ> snd) ?outs = map (\<lambda>i. [ids ! i]) [0..<n]" by (simp add: o_def)
  have mt: "py_max (map shape1 (map (\<lambda>i. [t i]) [0..<n])) = Inr (longest t n)"
    using n by (simp add: py_max_def longest_def shape1_def o_def)
  have ml: "py_max (map shape1 (map (\<lambda>i. [l i]) [0..<n])) = Inr (longest l n)"
    using n by (simp add: py_max_def longest_def shape1_def o_def)
  have tle: "\<forall>i\<in>set [0..<n]. length (t i) \<le> longest t n"
    unfolding longest_def by (auto intro!: fold_max_ge_elem)
  have lle: "\<forall>i\<in>set [0..<n]. length (l i) \<le> longest l n"
    unfolding longest_def by (auto intro!: fold_max_ge_elem)
  have pt: "those_ok (map (\<lambda>prediction. pad_to_fixed_length prediction (longest t n) pad)
               (map (\<lambda>i. [t i]) [0..<n])) =
            Inr (map (\<lambda>i. [right_pad (longest t n) pad (t i)]) [0..<n])"
    unfolding map_map o_def
    by (rule those_ok_map_Inr) (use tle in \<open>auto simp: pad_to_fixed_length_def shape1_def right_pad_def\<close>)
  have s2: "\<forall>i\<in>set [0..<n]. shape2 [l i] = vocab"
    using vocab by (auto simp: shape2_def shape1_def split: list.splits)
  have pl: "those_ok (map (\<lambda>single_logits. pad_to_fixed_length single_logits (longest l n)
                 (replicate (shape2 single_logits) 0)) (map (\<lambda>i. [l i]) [0..<n])) =
            Inr (map (\<lambda>i. [right_pad (longest l n) (replicate vocab 0) (l i)]) [0..<n])"
    unfolding map_map o_def
    by (rule those_ok_map_Inr) (use lle s2 in \<open>auto simp: pad_to_fixed_length_def shape1_def right_pad_def\<close>)
  have ct: "concatenate_axis0 (\<lambda>a. [shape1 a])
              (map (\<lambda>i. [right_pad (longest t n) pad (t i)]) [0..<n]) =
            Inr (map (\<lambda>i. right_pad (longest t n) pad (t i)) [0..<n])"
  proof -
    have "concatenate_axis0 (\<lambda>a. [shape1 a])
              (map (\<lambda>i. [right_pad (longest t n) pad (t i)]) [0..<n]) =
          Inr (concat (map (\<lambda>i. [right_pad (longest t n) pad (t i)]) [0..<n]))"
      by (rule concatenate_axis0_ok [where d = "[longest t n]"])
         (use n tle in \<open>auto simp: shape1_def right_pad_def\<close>)
    then show ?thesis by (simp add: concat_map_singleton)
  qed
  have cl: "concatenate_axis0 (\<lambda>a. [shape1 a, shape2 a])
              (map (\<lambda>i. [right_pad (longest l n) (replicate vocab 0) (l i)]) [0..<n]) =
            Inr (map (\<lambda>i. right_pad (longest l n) (replicate vocab 0) (l i)) [0..<n])"
  proof -
    have "\<forall>a\<in>set (map (\<lambda>i. [right_pad (longest l n) (replicate vocab 0) (l i)]) [0..<n]).
            [shape1 a, shape2 a] = [longest l n, vocab]"
      using lle vocab
      by (auto simp: shape2_def shape1_right_pad) (simp add: shape1_def right_pad_def)
    then have "concatenate_axis0 (\<lambda>a. [shape1 a, shape2 a])
              (map (\<lambda>i. [right_pad (longest l n) (replicate vocab 0) (l i)]) [0..<n]) =
          Inr (concat (map (\<lambda>i. [right_pad (longest l n) (replicate vocab 0) (l i)]) [0..<n]))"
      using n by (intro concatenate_axis0_ok [where d = "[longest l n, vocab]"]) auto
    then show ?thesis by (simp add: concat_map_singleton)
  qed
  have cs: "concatenate_axis0 (\<lambda>a. []) (map (\<lambda>i. [ids ! i]) [0..<n]) = Inr ids"
  proof -
    have "concatenate_axis0 (\<lambda>a. []) (map (\<lambda>i. [ids ! i]) [0..<n]) =
          Inr (concat (map (\<lambda>i. [ids ! i]) [0..<n]))"
      by (rule concatenate_axis0_ok [where d = "[]"]) (use n in auto)
    moreover have "map (\<lambda>i. ids ! i) [0..<n] = ids"
      using map_nth [of ids] len by simp
    ultimately show ?thesis by (simp add: concat_map_singleton)
  qed
  show ?thesis
    unfolding join_engine_outputs_def Let_def
    by (simp only: ne toks logs sids mt ml pt pl ct cl cs if_True if_False sum.case prod.case)
qed

lemma distribute_session_ids_short:
  "i \<le> length ids \<Longrightarrow> length ids < i + length batches \<Longrightarrow>
   distribute_session_ids (Some ids) i batches = Inl IndexError"
  by (induction batches arbitrary: i) auto

text \<open>
  C10. Whatever the generic splitting returns for the items without the session-id list,
  the pipeline's \<open>split_engine_inputs\<close> appends to sub-batch \<open>i\<close> exactly one element,
  the session id at index \<open>i\<close> of the list, as its last element; the number of rows in
  the sub-batch plays no role. When there are more sub-batches than session ids the
  subscript raises IndexError and nothing is returned.
\<close>

theorem split_engine_inputs_one_id_per_batch:
  assumes "first_session_ids items = Some ids"
    and "split (filter (\<lambda>x. \<not> is_list x) items) batch_size = Inr (batches, n)"
  shows "split_engine_inputs split items batch_size =
           (if length batches \<le> length ids
            then Inr (map (\<lambda>i. batches ! i @ [SessionId (ids ! i)]) [0..<length batches], n)
            else Inl IndexError)"
proof (cases "length batches \<le> length ids")
  case True
  then have "distribute_session_ids (Some ids) 0 batches =
      Inr (map (\<lambda>j. batches ! j @ [SessionId (ids ! j)]) [0..<length batches])"
    using distribute_session_ids_enough [of 0 batches ids] by simp
  with True assms show ?thesis by (simp add: split_engine_inputs_def)
next
  case False
  then have "distribute_session_ids (Some ids) 0 batches = Inl IndexError"
    using distribute_session_ids_short [of 0 ids batches] by simp
  with False assms show ?thesis by (simp add: split_engine_inputs_def)
qed

theorem split_engine_inputs_one_id_per_batch_witness:
  "first_session_ids [Array (Int2 [[1], [2], [3], [4]]), SessionIds [''a'', ''b'', ''c'', ''d'']] =
     Some [''a'', ''b'', ''c'', ''d''] \<and>
   data_split_engine_inputs
     (filter (\<lambda>x. \<not> is_list x)
        [Array (Int2 [[1], [2], [3], [4]]), SessionIds [''a'', ''b'', ''c'', ''d'']]) 3 =
     Inr ([[Array (Int2 [[1], [2], [3]])], [Array (Int2 [[4]])]], 4) \<and>
   split_engine_inputs data_split_engine_inputs
     [Array (Int2 [[1], [2], [3], [4]]), SessionIds [''a'', ''b'', ''c'', ''d'']] 3 =
     Inr ([[Array (Int2 [[1], [2], [3]]), SessionId ''a''],
           [Array (Int2 [[4]]), SessionId ''b'']], 4)"
proof -
  let ?items = "[Array (Int2 [[1], [2], [3], [4]]), SessionIds [''a'', ''b'', ''c'', ''d'']]"
  have f: "first_session_ids ?items = Some [''a'', ''b'', ''c'', ''d'']"
    by (simp add: first_session_ids_def is_list_def)
  have s: "data_split_engine_inputs (filter (\<lambda>x. \<not> is_list x) ?items) 3 =
      Inr ([[Array (Int2 [[1], [2], [3]])], [Array (Int2 [[4]])]], 4)"
    by code_simp
  show ?thesis
    using f s split_engine_inputs_one_id_per_batch
      [where split = data_split_engine_inputs and batch_size = 3, OF f s]
    by simp
qed

text \<open>
  C1, as stated, at a batch of four items split with \<open>k = 2\<close>: the second sub-batch holds
  items 2 and 3, whose session ids are \<open>c\<close> and \<open>d\<close>, and carries the single id \<open>b\<close>.
\<close>

theorem split_engine_inputs_ids_counterexample:
  "split_engine_inputs data_split_engine_inputs
     [Array (Int2 [[1], [2], [3], [4]]), SessionIds [''a'', ''b'', ''c'', ''d'']] 2 =
     Inr ([[Array (Int2 [[1], [2]]), SessionId ''a''],
           [Array (Int2 [[3], [4]]), SessionId ''b'']], 4) \<and>
   carried_session_ids [Array (Int2 [[3], [4]]), SessionId ''b''] = [''b''] \<and>
   slice 2 4 [''a'', ''b'', ''c'', ''d''] = [''c'', ''d''] \<and>
   carried_session_ids [Array (Int2 [[3], [4]]), SessionId ''b''] \<noteq>
     slice 2 4 [''a'', ''b'', ''c'', ''d'']"
  by code_simp

text \<open>
  C1, amended to split size 1 on a pipeline with cache support. Every sub-batch then
  holds one row of every array and carries exactly the session id of that row. When
  sub-batch \<open>i\<close> answers with the one-row token array \<open>[t i]\<close>, the one-row logits array
  \<open>[l i]\<close> (entries of one vocabulary size) and the array of the session id it carries,
  the join returns the session ids in the original order, and row \<open>i\<close> of the joined
  tokens and logits is \<open>t i\<close> and \<open>l i\<close>, padded on the right to the longest row with the
  pad token and with all-zero entries.
\<close>

theorem split_join_unit_round_trip:
  fixes t :: "nat \<Rightarrow> int list" and l :: "nat \<Rightarrow> 'l::zero list list"
  assumes "first_session_ids items = Some ids"
    and "filter (\<lambda>x. \<not> is_list x) items = map Array arrays"
    and "arrays \<noteq> []"
    and "\<forall>a\<in>set arrays. nd_shape0 a = length ids"
    and "ids \<noteq> []"
    and "\<forall>i<length ids. l i \<noteq> [] \<and> (\<forall>v\<in>set (l i). length v = vocab)"
  shows "split_engine_inputs data_split_engine_inputs items 1 =
           Inr (unit_batches arrays ids, length ids) \<and>
         (\<forall>i<length ids. carried_session_ids (unit_batches arrays ids ! i) = [ids ! i]) \<and>
         join_engine_outputs True pad
           (map (\<lambda>i. ([t i], [l i], carried_session_ids (unit_batches arrays ids ! i)))
              [0..<length ids]) (length ids) =
           Inr (map (\<lambda>i. right_pad (longest t (length ids)) pad (t i)) [0..<length ids],
                map (\<lambda>i. right_pad (longest l (length ids)) (replicate vocab 0) (l i))
                  [0..<length ids],
                ids)"
proof -
  have outs: "map (\<lambda>i. ([t i], [l i], carried_session_ids (unit_batches arrays ids ! i)))
                [0..<length ids] =
              map (\<lambda>i. ([t i], [l i], [ids ! i])) [0..<length ids]"
    by (rule map_cong) (simp_all add: carried_unit)
  have n: "0 < length ids" using assms(5) by simp
  show ?thesis
    using split_unit [OF assms(1-4)] join_unit [OF n refl assms(6), of pad t]
    by (simp add: outs carried_unit)
qed

theorem split_join_unit_round_trip_witness:
  "first_session_ids [Array (Int2 [[1, 2], [3, 4]]), SessionIds [''a'', ''b'']] =
     Some [''a'', ''b''] \<and>
   filter (\<lambda>x. \<not> is_list x) [Array (Int2 [[1, 2], [3, 4]]), SessionIds [''a'', ''b'']] =
     map Array [Int2 [[1, 2], [3, 4]]] \<and>
   nd_shape0 (Int2 [[1, 2], [3, 4]]) = length [''a'', ''b''] \<and>
   split_engine_inputs data_split_engine_inputs
     [Array (Int2 [[1, 2], [3, 4]]), SessionIds [''a'', ''b'']] 1 =
     Inr ([[Array (Int2 [[1, 2]]), SessionId ''a''],
           [Array (Int2 [[3, 4]]), SessionId ''b'']], 2) \<and>
   join_engine_outputs True 0
     [([[5]], [[[1, 2::int]]], [''a'']), ([[6, 7]], [[[3, 4], [5, 6]]], [''b''])] 2 =
     Inr ([[5, 0], [6, 7]], [[[1, 2], [0, 0]], [[3, 4], [5, 6]]], [''a'', ''b''])"
proof -
  let ?items = "[Array (Int2 [[1, 2], [3, 4]]), SessionIds [''a'', ''b'']]"
  let ?t = "\<lambda>i::nat. if i = 0 then [5::int] else [6, 7]"
  let ?l = "\<lambda>i::nat. if i = 0 then [[1, 2::int]] else [[3, 4], [5, 6]]"
  have h1: "first_session_ids ?items = Some [''a'', ''b'']"
    by (simp add: first_session_ids_def is_list_def)
  have h2: "filter (\<lambda>x. \<not> is_list x) ?items = map Array [Int2 [[1, 2], [3, 4]]]"
    by (simp add: is_list_def)
  have h3: "[Int2 [[1, 2], [3, 4]]] \<noteq> []" by simp
  have h4: "\<forall>a\<in>set [Int2 [[1, 2], [3, 4]]]. nd_shape0 a = length [''a'', ''b'']"
    by (simp add: nd_shape0_def)
  have h5: "[''a'', ''b''] \<noteq> []" by simp
  have h6: "\<forall>i<length [''a'', ''b'']. ?l i \<noteq> [] \<and> (\<forall>v\<in>set (?l i). length v = 2)"
    by simp
  have u: "[0..<Suc (Suc 0)] = [0, Suc 0]" by (simp add: upt_conv_Cons)
  show ?thesis
    using h1 h2 h4 split_join_unit_round_trip [OF h1 h2 h3 h4 h5 h6, of 0 ?t]
    by (simp add: unit_batches_def longest_def right_pad_def nd_slice_def slice_def
        carried_session_ids_def u numeral_2_eq_2)
qed

section \<open>Properties of \<open>synchronize_engines\<close>\<close>

text \<open>
  C2, as stated, at two stores that hold the same entry for the session: the
  synchronization calls \<open>transfer_cache_session\<close> on the single-token engine with the
  multitoken engine's entry, whose timestamp is not older than the store's own, so the
  transfer replaces the entry.
\<close>

theorem synchronize_engines_writes_counterexample:
  "cache_transfers (snd (synchronize_engines ''s'' synced_engines)) =
     [(SingleToken, Some synced_session)] \<and>
   replaces (kv_cache_storage (synced_engine 1)) (Some synced_session)"
  by (simp add: synchronize_engines_def get_def newer_def transfer_to_def the_engine_def
      set_engine_def transfer_cache_session_def replaces_def Let_def synced_engines_def
      synced_engine_def synced_session_def)

text \<open>
  C2, amended. When both stores hold entries with equal timestamps for the session id
  (the multitoken engine's entry stored under its own id), \<open>synchronize_engines\<close> makes no
  transfer to the multitoken engine and exactly one transfer to the single-token engine:
  the multitoken engine's entry replaces the single-token engine's entry. Nothing else
  changes, so the timestamps stay equal and both stores hold the same entry afterwards.
\<close>

theorem synchronize_engines_equal_timestamps:
  assumes "engine s = Some e" and "multitoken_engine s = Some m"
    and "kv_cache_storage e sid = Some a" and "kv_cache_storage m sid = Some b"
    and "timestamp a = timestamp b" and "kv_session_id b = sid"
  shows "synchronize_engines sid s =
           (Inr (),
            s\<lparr>engine := Some (e\<lparr>kv_cache_storage := (kv_cache_storage e)(sid \<mapsto> b)\<rparr>),
              cache_transfers := cache_transfers s @ [(SingleToken, Some b)]\<rparr>)"
  using assms
  by (simp add: synchronize_engines_def get_def newer_def transfer_to_def the_engine_def
      set_engine_def transfer_cache_session_def replaces_def Let_def)

theorem synchronize_engines_equal_timestamps_witness:
  "engine synced_engines = Some (synced_engine 1) \<and>
   multitoken_engine synced_engines = Some (synced_engine 4) \<and>
   kv_cache_storage (synced_engine 1) ''s'' = Some synced_session \<and>
   kv_cache_storage (synced_engine 4) ''s'' = Some synced_session \<and>
   kv_session_id synced_session = ''s'' \<and>
   synchronize_engines ''s'' synced_engines =
     (Inr (), synced_engines\<lparr>cache_transfers := [(SingleToken, Some synced_session)]\<rparr>)"
proof -
  have h1: "engine synced_engines = Some (synced_engine 1)" by (simp add: synced_engines_def)
  have h2: "multitoken_engine synced_engines = Some (synced_engine 4)"
    by (simp add: synced_engines_def)
  have h3: "kv_cache_storage (synced_engine 1) ''s'' = Some synced_session"
    by (simp add: synced_engine_def)
  have h4: "kv_cache_storage (synced_engine 4) ''s'' = Some synced_session"
    by (simp add: synced_engine_def)
  have h6: "kv_session_id synced_session = ''s''" by (simp add: synced_session_def)
  have u: "(synced_engine 1)\<lparr>kv_cache_storage :=
               (kv_cache_storage (synced_engine 1))(''s'' \<mapsto> synced_session)\<rparr> = synced_engine 1"
    by (simp add: synced_engine_def)
  show ?thesis
    using h1 h2 h3 h4 h6 synchronize_engines_equal_timestamps [OF h1 h2 h3 h4 refl h6]
    by (simp add: u) (simp add: synced_engines_def)
qed

section \<open>The generation loop of \<open>engine_forward\<close>\<close>

text \<open>Only the generation loop changes the iteration counter.\<close>

lemma then_do_iterations:
  assumes "\<And>s. generate_iterations (snd (m s)) = generate_iterations s"
    and "\<And>x s. generate_iterations (snd (f x s)) = generate_iterations s"
  shows "generate_iterations (snd (then_do m f s)) = generate_iterations s"
proof (cases "m s")
  case (Pair r s')
  then have "generate_iterations s' = generate_iterations s"
    using assms(1) [of s] by simp
  with Pair assms(2) show ?thesis
    by (cases r) (simp_all add: then_do_def)
qed

lemma call_engine_iterations [simp]:
  "generate_iterations (snd (call_engine net which engine_inputs sid s)) = generate_iterations s"
  by (simp add: call_engine_def set_engine_def split: option.splits prod.splits engine_id.splits)

lemma transfer_to_iterations [simp]:
  "generate_iterations (transfer_to which entry s) = generate_iterations s"
  by (simp add: transfer_to_def set_engine_def split: option.splits engine_id.splits)

lemma synchronize_engines_iterations [simp]:
  "generate_iterations (snd (synchronize_engines sid s)) = generate_iterations s"
  by (simp add: synchronize_engines_def Let_def split: option.splits)

lemma stream_iterations [simp]:
  "generate_iterations (stream strm ev s) = generate_iterations s"
  by (simp add: stream_def)

lemma autoregressive_inference_iterations [simp]:
  "generate_iterations (snd (autoregressive_inference net p tokens sid s)) = generate_iterations s"
  by (simp add: autoregressive_inference_def Let_def split: option.splits sum.splits)

lemma prefill_chunks_iterations [simp]:
  "generate_iterations (snd (prefill_chunks net p sid idx batches acc s)) = generate_iterations s"
proof (induction batches arbitrary: idx acc s)
  case Nil
  then show ?case by simp
next
  case (Cons b bs)
  show ?case
  proof (cases "multitoken_engine s")
    case None
    then show ?thesis by simp
  next
    case (Some m)
    show ?thesis
    proof (cases "prefill_engine_inputs p m sid idx b")
      case (Inl err)
      with Some show ?thesis by simp
    next
      case (Inr inputs)
      obtain r s' where c: "call_engine net MultiToken inputs (Some sid) s = (r, s')"
        by (cases "call_engine net MultiToken inputs (Some sid) s")
      then have i: "generate_iterations s' = generate_iterations s"
        using call_engine_iterations [of net MultiToken inputs "Some sid" s] by simp
      show ?thesis
        using Some Inr c i Cons.IH by (cases r) (auto split: prod.splits)
    qed
  qed
qed

lemma prefill_single_iterations [simp]:
  "generate_iterations (snd (prefill_single net p sid toks run_tokens acc s)) = generate_iterations s"
proof (induction toks arbitrary: run_tokens acc s)
  case Nil
  then show ?case by simp
next
  case (Cons t ts)
  obtain r s' where c: "autoregressive_inference net p (run_tokens @ [Some t]) sid s = (r, s')"
    by (cases "autoregressive_inference net p (run_tokens @ [Some t]) sid s")
  then have i: "generate_iterations s' = generate_iterations s"
    using autoregressive_inference_iterations [of net p "run_tokens @ [Some t]" sid s] by simp
  show ?case
    using c i Cons.IH by (cases r) (auto split: prod.splits)
qed

lemma prompt_inference_chunks_iterations [simp]:
  "generate_iterations (snd (prompt_inference_chunks net p tokens sid s)) = generate_iterations s"
  by (simp add: prompt_inference_chunks_def Let_def then_do_iterations split: sum.splits)

lemma prompt_inference_single_iterations [simp]:
  "generate_iterations (snd (prompt_inference_single net p sid st s)) = generate_iterations s"
  by (simp add: prompt_inference_single_def Let_def then_do_iterations
      split: sum.splits prod.splits)

lemma prompt_inference_iterations [simp]:
  "generate_iterations (snd (prompt_inference net p engine_inputs sid s)) = generate_iterations s"
  by (simp add: prompt_inference_def then_do_iterations split: sum.splits)


lemma token_generation_iterations:
  "generate_iterations (snd (token_generation net p sid strm bound st s)) \<le>
     generate_iterations s + nat (bound + 1 - int (length (fst (snd st))))"
proof (induction net p sid strm bound st s rule: token_generation.induct)
  case (1 net p sid strm bound st s)
  obtain tokens gen gl where st: "st = (tokens, gen, gl)"
    by (cases st) auto
  let ?s = "begin_iteration s"
  show ?case
  proof (cases "int (length gen) \<le> bound")
    case False
    then show ?thesis
      by (simp add: st token_generation.simps [of net p sid strm bound "(tokens, gen, gl)" s])
  next
    case True
    obtain r s' where a: "autoregressive_inference net p tokens sid ?s = (r, s')"
      by (cases "autoregressive_inference net p tokens sid ?s")
    have "generate_iterations s' = generate_iterations ?s"
      using autoregressive_inference_iterations [of net p tokens sid ?s] a by simp
    then have i: "generate_iterations s' = Suc (generate_iterations s)"
      by (simp add: begin_iteration_def)
    show ?thesis
    proof (cases r)
      case (Inl err)
      with True a i show ?thesis
        by (simp add: st token_generation.simps [of net p sid strm bound "(tokens, gen, gl)" s])
    next
      case (Inr res)
      obtain token logits where res: "res = (token, logits)" by (cases res)
      show ?thesis
      proof (cases "token = eos_token_id p \<and> \<not> force_max_tokens p")
        case stop: True
        with True a i Inr res show ?thesis
          by (simp add: st token_generation.simps [of net p sid strm bound "(tokens, gen, gl)" s])
      next
        case go: False
        have "generate_iterations (snd (token_generation net p sid strm bound
                 (tokens @ [token], gen @ [token], gl @ [logits])
                 (stream strm (Put [token]) s'))) \<le>
              generate_iterations (stream strm (Put [token]) s') +
                nat (bound + 1 - int (length (fst (snd (tokens @ [token], gen @ [token], gl @ [logits])))))"
          by (rule "1.IH" [OF st [symmetric] refl True a [symmetric] Inr res [symmetric] go])
        moreover have "Suc (nat (bound + 1 - int (length (gen @ [token])))) =
               nat (bound + 1 - int (length gen))"
          using True by simp
        ultimately show ?thesis
          using True a i Inr res go
          by (simp add: st token_generation.simps [of net p sid strm bound "(tokens, gen, gl)" s])
      qed
    qed
  qed
qed


lemma then_do_iterations_le:
  assumes "generate_iterations (snd (m s)) \<le> n"
    and "\<And>x s. generate_iterations (snd (f x s)) = generate_iterations s"
  shows "generate_iterations (snd (then_do m f s)) \<le> n"
proof (cases "m s")
  case (Pair r s')
  with assms show ?thesis
    by (cases r) (simp_all add: then_do_def)
qed

lemma max_tokens_eq:
  "max_tokens p =
     (case max_generated_tokens p of
        None \<Rightarrow> 100 * int (sequence_length p)
      | Some m \<Rightarrow> if m \<le> 0 then 100 * int (sequence_length p) else m)"
  by (auto simp: max_tokens_def split: option.splits)

lemma generate_iterations_le:
  "generate_iterations (snd (generate net p ctx sid pr s)) \<le>
     generate_iterations s + nat (max_tokens p)"
proof -
  obtain tokens prompt_logits where pr: "pr = (tokens, prompt_logits)" by (cases pr)
  show ?thesis
  proof (cases "tokens = []")
    case True
    then show ?thesis by (simp add: generate_def pr)
  next
    case False
    let ?s0 = "stream (streamer ctx) (Put tokens) s"
    let ?st = "(tokens, [last tokens],
                if include_prompt_logits ctx then prompt_logits else [])"
    have "generate_iterations
            (snd (token_generation net p sid (streamer ctx) (max_tokens p) ?st ?s0)) \<le>
          generate_iterations ?s0 + nat (max_tokens p + 1 - int (length (fst (snd ?st))))"
      by (rule token_generation_iterations)
    then have l: "generate_iterations
            (snd (token_generation net p sid (streamer ctx) (max_tokens p) ?st ?s0)) \<le>
          generate_iterations s + nat (max_tokens p)"
      by simp
    show ?thesis
      unfolding generate_def pr prod.case Let_def if_not_P [OF False]
      by (rule then_do_iterations_le
            [where m = "token_generation net p sid (streamer ctx) (max_tokens p) ?st"
               and s = ?s0, OF l])
         (simp add: then_do_iterations split: prod.splits)
  qed
qed

text \<open>
  C7. \<open>engine_forward\<close> is a total function (the generation loop terminates: the
  distance of \<open>len(generated_tokens)\<close> to the bound shrinks with every iteration), and in
  every request, whatever the engine answers and also when a call raises, the loop starts
  at most \<open>max_tokens\<close> iterations: \<open>max_generated_tokens\<close> when it is set and positive,
  and 100 times the sequence length otherwise.
\<close>

theorem engine_forward_iterations_bounded:
  "generate_iterations (snd (engine_forward net p engine_inputs ctx s)) \<le>
     generate_iterations s +
     nat (case max_generated_tokens p of
            None \<Rightarrow> 100 * int (sequence_length p)
          | Some m \<Rightarrow> if m \<le> 0 then 100 * int (sequence_length p) else m)"
proof -
  have g: "\<And>sid pr s. generate_iterations (snd (generate net p ctx sid pr s)) \<le>
      generate_iterations s + nat (max_tokens p)"
    by (rule generate_iterations_le)
  have "generate_iterations (snd (engine_forward net p engine_inputs ctx s)) \<le>
          generate_iterations s + nat (max_tokens p)"
  proof (cases "cache_support_enabled p")
    case False
    then show ?thesis
      by (simp add: engine_forward_def then_do_iterations split: prod.splits)
  next
    case True
    show ?thesis
    proof (cases "pop_session_id engine_inputs")
      case (Inl err)
      with True show ?thesis by (simp add: engine_forward_def)
    next
      case (Inr r)
      obtain sid inputs where r: "r = (sid, inputs)" by (cases r)
      obtain q s' where pi: "prompt_inference net p inputs sid s = (q, s')"
        by (cases "prompt_inference net p inputs sid s")
      have i: "generate_iterations s' = generate_iterations s"
        using prompt_inference_iterations [of net p inputs sid s] pi by simp
      show ?thesis
      proof (cases q)
        case (Inl err)
        with True Inr r pi i show ?thesis
          by (simp add: engine_forward_def then_do_def)
      next
        case q: (Inr b)
        have "generate_iterations (snd (generate net p ctx sid b s')) \<le>
                generate_iterations s' + nat (max_tokens p)"
          by (rule g)
        with True Inr r pi i q show ?thesis
          by (simp add: engine_forward_def then_do_def)
      qed
    qed
  qed
  then show ?thesis by (simp add: max_tokens_eq)
qed

section \<open>Properties of the construction\<close>

text \<open>
  C8, as stated, on an engine other than DeepSparse: the chunk size equals the sequence
  length and multitoken prefill is enabled, and the constructor returns a pipeline.
\<close>

theorem text_generation_pipeline_other_engine_counterexample:
  "int (arg_sequence_length onnxruntime_args) \<le>
     arg_prompt_processing_sequence_length onnxruntime_args \<and>
   model_has_causal_mask_input onnxruntime_args \<and>
   model_has_cached_outputs onnxruntime_args \<and>
   \<not> isl (text_generation_pipeline onnxruntime_args)"
  by (simp add: onnxruntime_args_def deepsparse_args_def text_generation_pipeline_def
      initialize_engines_def Let_def)

text \<open>
  C8, amended. For a model with cache support on the DeepSparse engine, a prompt chunk
  size greater than or equal to the sequence length with multitoken prefill enabled makes
  the constructor raise ValueError. The construction then yields neither a pipeline nor
  engines, so no engine call has been made.
\<close>

theorem text_generation_pipeline_chunk_size_error:
  assumes "model_has_cached_outputs a"
    and "arg_engine_type a = DEEPSPARSE_ENGINE"
    and "model_has_causal_mask_input a"
    and "int (arg_sequence_length a) \<le> arg_prompt_processing_sequence_length a"
  shows "text_generation_pipeline a = Inl ValueError"
  using assms
  by (simp add: text_generation_pipeline_def initialize_engines_def Let_def)

theorem text_generation_pipeline_chunk_size_error_witness:
  "model_has_cached_outputs deepsparse_args \<and>
   arg_engine_type deepsparse_args = DEEPSPARSE_ENGINE \<and>
   model_has_causal_mask_input deepsparse_args \<and>
   int (arg_sequence_length deepsparse_args) \<le>
     arg_prompt_processing_sequence_length deepsparse_args \<and>
   text_generation_pipeline deepsparse_args = Inl ValueError"
proof -
  have h1: "model_has_cached_outputs deepsparse_args" by (simp add: deepsparse_args_def)
  have h2: "arg_engine_type deepsparse_args = DEEPSPARSE_ENGINE"
    by (simp add: deepsparse_args_def)
  have h3: "model_has_causal_mask_input deepsparse_args" by (simp add: deepsparse_args_def)
  have h4: "int (arg_sequence_length deepsparse_args) \<le>
      arg_prompt_processing_sequence_length deepsparse_args"
    by (simp add: deepsparse_args_def)
  show ?thesis
    using h1 h2 h3 h4 text_generation_pipeline_chunk_size_error [OF h1 h2 h3 h4] by simp
qed

section \<open>Properties of \<open>prompt_inference\<close>\<close>

lemma then_do_Inr:
  assumes "then_do m f s = (Inr y, s')"
  obtains x s1 where "m s = (Inr x, s1)" and "f x s1 = (Inr y, s')"
proof (cases "m s")
  case (Pair r s1)
  with assms show ?thesis
    by (cases r) (auto simp: then_do_def intro: that)
qed

lemma transfer_to_calls [simp]: "engine_calls (transfer_to which entry s) = engine_calls s"
  by (simp add: transfer_to_def set_engine_def split: option.splits engine_id.splits)

lemma synchronize_engines_calls [simp]:
  "engine_calls (snd (synchronize_engines sid s)) = engine_calls s"
  by (simp add: synchronize_engines_def Let_def split: option.splits)

lemma call_engine_calls:
  "call_engine net which inputs sid s = (Inr r, s') \<Longrightarrow>
   engine_calls s' = engine_calls s @ [which]"
  by (auto simp: call_engine_def split: option.splits prod.splits)

lemma autoregressive_inference_calls:
  "autoregressive_inference net p tokens sid s = (Inr r, s') \<Longrightarrow>
   engine_calls s' = engine_calls s @ [SingleToken]"
  by (auto simp: autoregressive_inference_def Let_def call_engine_calls
      split: option.splits sum.splits if_splits)

lemma with_snd: "fst x = a \<Longrightarrow> x = (a, snd x)"
  by (cases x) simp

text \<open>
  C5, as stated, at a three-token prompt on a session that the single-token engine
  already holds, with a tokenizer that has \<open>add_bos_token\<close>: the leading token is
  stripped, two tokens go through the single-token engine, and \<open>prompt_inference\<close>
  returns three tokens and two logits entries.
\<close>

theorem prompt_inference_known_session_counterexample:
  "tokens_by_attention_mask prompt_inputs = Inr [11, 12, 13] \<and>
   cache_support_enabled bos_pipeline \<and>
   prompt_processing_sequence_length bos_pipeline = 4 \<and>
   fst (prompt_inference counting_net bos_pipeline prompt_inputs ''s'' synced_engines) =
     Inr ([Some 12, Some 13, Some 5], [[[[4]]], [[[5]]]]) \<and>
   engine_calls (snd (prompt_inference counting_net bos_pipeline prompt_inputs ''s''
     synced_engines)) = [SingleToken, SingleToken]"
  by code_simp

text \<open>
  C5, amended. For a three-token prompt and a prompt chunk size of 4, when both engines
  exist (the synchronization succeeds), no leading token is stripped (the tokenizer has
  no \<open>add_bos_token\<close>, or the single-token engine has no session for the id after the
  synchronization) and the three single-token inferences return: the chunking yields no
  chunk, \<open>prompt_inference\<close> returns the three prompt tokens followed by the token of the
  third inference together with the three logits, one per step, and it makes exactly
  three engine calls, all to the single-token engine.
\<close>

theorem prompt_inference_short_prompt:
  assumes toks: "tokens_by_attention_mask engine_inputs = Inr [t1, t2, t3]"
    and chunk: "prompt_processing_sequence_length p = 4"
    and sync: "synchronize_engines sid s = (Inr (), s0)"
    and eng: "engine s0 = Some e0"
    and fresh: "\<not> (has_add_bos_token p \<and> has_session (kv_cache_storage e0) sid)"
    and a1: "autoregressive_inference net p [Some t1] sid s0 = (Inr (n1, l1), s1)"
    and a2: "autoregressive_inference net p [Some t1, Some t2] sid s1 = (Inr (n2, l2), s2)"
    and a3: "autoregressive_inference net p [Some t1, Some t2, Some t3] sid s2 =
               (Inr (n3, l3), s3)"
  shows "token_batches (prompt_processing_sequence_length p) [t1, t2, t3] = Inr [] \<and>
         prompt_inference net p engine_inputs sid s =
           (Inr ([Some t1, Some t2, Some t3, n3], [l1, l2, l3]), s3) \<and>
         engine_calls s3 = engine_calls s @ [SingleToken, SingleToken, SingleToken]"
proof -
  have b: "token_batches (prompt_processing_sequence_length p) [t1, t2, t3] = Inr []"
    by (simp add: token_batches_def chunk)
  have c: "prompt_inference_chunks net p [t1, t2, t3] sid s =
             (Inr ([t1, t2, t3], None, 0, []), s)"
    by (simp add: prompt_inference_chunks_def chunk)
  have h: "engine_has_session (engine s0) sid = Inr (has_session (kv_cache_storage e0) sid)"
    by (simp add: engine_has_session_def eng)
  have l: "prefill_single net p sid [t1, t2, t3] [] (None, []) s0 =
             (Inr (n3, [l1, l2, l3]), s3)"
    by (simp add: a1 a2 a3)
  have r: "remove_bos_token_if_applicable p [t1, t2, t3] = [t1, t2, t3] \<or>
           \<not> has_session (kv_cache_storage e0) sid"
    using fresh by (auto simp: remove_bos_token_if_applicable_def)
  have d: "prompt_inference_single net p sid ([t1, t2, t3], None, 0, []) s =
             (Inr ([Some t1, Some t2, Some t3, n3], [l1, l2, l3]), s3)"
    using r by (auto simp: prompt_inference_single_def then_do_def sync h l
        simp del: prefill_single.simps)
  have p: "prompt_inference net p engine_inputs sid s =
             (Inr ([Some t1, Some t2, Some t3, n3], [l1, l2, l3]), s3)"
    by (simp add: prompt_inference_def toks then_do_def c d)
  have "engine_calls s0 = engine_calls s"
    using synchronize_engines_calls [of sid s] sync by simp
  then have e: "engine_calls s3 = engine_calls s @ [SingleToken, SingleToken, SingleToken]"
    using autoregressive_inference_calls [OF a1] autoregressive_inference_calls [OF a2]
      autoregressive_inference_calls [OF a3]
    by simp
  show ?thesis using b p e by simp
qed

theorem prompt_inference_short_prompt_witness:
  "tokens_by_attention_mask prompt_inputs = Inr [11, 12, 13] \<and>
   prompt_processing_sequence_length scenario_pipeline = 4 \<and>
   \<not> has_add_bos_token scenario_pipeline \<and>
   token_batches (prompt_processing_sequence_length scenario_pipeline) [11, 12, 13] = Inr [] \<and>
   fst (prompt_inference counting_net scenario_pipeline prompt_inputs ''s'' fresh_engines) =
     Inr ([Some 11, Some 12, Some 13, Some 3], [[[[1]]], [[[2]]], [[[3]]]]) \<and>
   engine_calls (snd (prompt_inference counting_net scenario_pipeline prompt_inputs ''s''
     fresh_engines)) = [SingleToken, SingleToken, SingleToken]"
proof -
  let ?s0 = "snd (synchronize_engines ''s'' fresh_engines)"
  let ?s1 = "snd (autoregressive_inference counting_net scenario_pipeline [Some 11] ''s'' ?s0)"
  let ?s2 = "snd (autoregressive_inference counting_net scenario_pipeline
                [Some 11, Some 12] ''s'' ?s1)"
  let ?s3 = "snd (autoregressive_inference counting_net scenario_pipeline
                [Some 11, Some 12, Some 13] ''s'' ?s2)"
  have toks: "tokens_by_attention_mask prompt_inputs = Inr [11, 12, 13]"
    by code_simp
  have chunk: "prompt_processing_sequence_length scenario_pipeline = 4"
    by (simp add: scenario_pipeline_def)
  have nobos: "\<not> has_add_bos_token scenario_pipeline"
    by (simp add: scenario_pipeline_def has_add_bos_token_def)
  have "fst (synchronize_engines ''s'' fresh_engines) = Inr ()"
    by (simp add: synchronize_engines_def fresh_engines_def Let_def)
  then have sync: "synchronize_engines ''s'' fresh_engines = (Inr (), ?s0)"
    by (rule with_snd)
  have eng: "engine ?s0 = Some (the (engine ?s0))"
    by (simp add: synchronize_engines_def fresh_engines_def Let_def transfer_to_def
        the_engine_def set_engine_def newer_def get_def new_engine_def)
  have fresh: "\<not> (has_add_bos_token scenario_pipeline \<and>
      has_session (kv_cache_storage (the (engine ?s0))) ''s'')"
    using nobos by simp
  have "fst (autoregressive_inference counting_net scenario_pipeline [Some 11] ''s'' ?s0) =
          Inr (Some 1, [[[1]]])"
    by code_simp
  then have a1: "autoregressive_inference counting_net scenario_pipeline [Some 11] ''s'' ?s0 =
          (Inr (Some 1, [[[1]]]), ?s1)"
    by (rule with_snd)
  have "fst (autoregressive_inference counting_net scenario_pipeline [Some 11, Some 12] ''s''
               ?s1) = Inr (Some 2, [[[2]]])"
    by code_simp
  then have a2: "autoregressive_inference counting_net scenario_pipeline [Some 11, Some 12]
               ''s'' ?s1 = (Inr (Some 2, [[[2]]]), ?s2)"
    by (rule with_snd)
  have "fst (autoregressive_inference counting_net scenario_pipeline
               [Some 11, Some 12, Some 13] ''s'' ?s2) = Inr (Some 3, [[[3]]])"
    by code_simp
  then have a3: "autoregressive_inference counting_net scenario_pipeline
               [Some 11, Some 12, Some 13] ''s'' ?s2 = (Inr (Some 3, [[[3]]]), ?s3)"
    by (rule with_snd)
  have c0: "engine_calls fresh_engines = []" by (simp add: fresh_engines_def)
  note t = prompt_inference_short_prompt [OF toks chunk sync eng fresh a1 a2 a3]
  from t have r1: "token_batches (prompt_processing_sequence_length scenario_pipeline)
      [11, 12, 13] = Inr []" by (rule conjunct1)
  from t have r2: "prompt_inference counting_net scenario_pipeline prompt_inputs ''s''
      fresh_engines = (Inr ([Some 11, Some 12, Some 13, Some 3], [[[[1]]], [[[2]]], [[[3]]]]), ?s3)"
    by (rule conjunct1 [OF conjunct2])
  from t have r3: "engine_calls ?s3 =
      engine_calls fresh_engines @ [SingleToken, SingleToken, SingleToken]"
    by (rule conjunct2 [OF conjunct2])
  show ?thesis
    using toks chunk nobos r1 r3 by (simp add: r2 c0)
qed

lemma prefill_chunks_processed:
  "prefill_chunks net p sid idx batches acc s = (Inr acc', s') \<Longrightarrow>
   fst (snd acc') =
     fst (snd acc) + prompt_processing_sequence_length p * int (length batches)"
proof (induction batches arbitrary: idx acc s)
  case Nil
  then show ?case by simp
next
  case (Cons b bs)
  from Cons.prems obtain m where m: "multitoken_engine s = Some m"
    by (cases "multitoken_engine s") auto
  from Cons.prems m obtain inputs where i: "prefill_engine_inputs p m sid idx b = Inr inputs"
    by (cases "prefill_engine_inputs p m sid idx b") auto
  obtain r s1 where c: "call_engine net MultiToken inputs (Some sid) s = (r, s1)"
    by (cases "call_engine net MultiToken inputs (Some sid) s")
  from Cons.prems m i c obtain tok lg where r: "r = Inr (tok, lg)"
    by (cases r) auto
  from Cons.prems m i c r have
    "prefill_chunks net p sid (Suc idx) bs
       (tok, fst (snd acc) + prompt_processing_sequence_length p, snd (snd acc) @ [lg]) s1 =
     (Inr acc', s')"
    by simp
  from Cons.IH [OF this] show ?case
    by (simp add: algebra_simps)
qed

lemma token_batches_length:
  "token_batches chunk tokens = Inr batches \<Longrightarrow>
   length batches = nat (int (length tokens) div chunk)"
  by (auto simp: token_batches_def Let_def split: if_splits)

lemma div_ge_one: "1 \<le> c \<Longrightarrow> c \<le> n \<Longrightarrow> 1 \<le> n div (c::int)"
  using pos_imp_zdiv_pos_iff [of c n] by simp

lemma remove_bos_length:
  "length tokens - 1 \<le> length (remove_bos_token_if_applicable p tokens)"
  by (simp add: remove_bos_token_if_applicable_def)

text \<open>
  What the code does on a run of \<open>prompt_inference\<close> that returns, with a chunk size of at
  least 1: the tokens returned before the new token are the prompt tokens without their
  first token exactly when the tokenizer has an attribute \<open>add_bos_token\<close> (whatever its
  value) and the engine of the path taken (the multitoken engine for a prompt longer than
  a chunk with multitoken prefill enabled, the single-token engine otherwise) has a
  session for the id after the synchronization; otherwise they are the prompt tokens
  unchanged. The first token is dropped whatever it is.
\<close>

lemma prompt_inference_strips_leading_token:
  assumes toks: "tokens_by_attention_mask engine_inputs = Inr tokens"
    and chunk: "1 \<le> prompt_processing_sequence_length p"
    and res: "prompt_inference net p engine_inputs sid s = (Inr (out, logits), s')"
  shows "butlast out =
           map Some (if has_add_bos_token p \<and> session_known p tokens sid s
                     then drop 1 tokens else tokens)"
proof -
  from res toks obtain st s1 where
    c: "prompt_inference_chunks net p tokens sid s = (Inr st, s1)" and
    d: "prompt_inference_single net p sid st s1 = (Inr (out, logits), s')"
    by (auto simp: prompt_inference_def elim: then_do_Inr)
  obtain toks1 new_token ntp pl where st: "st = (toks1, new_token, ntp, pl)"
    by (cases st) auto
  show ?thesis
  proof (cases "chunked p tokens")
    case False
    with c have s1: "s1 = s" and t1: "toks1 = tokens" and n0: "ntp = 0"
      by (auto simp: prompt_inference_chunks_def chunked_def st)
    obtain r s2 where sy0: "synchronize_engines sid s = (r, s2)"
      by (cases "synchronize_engines sid s")
    from d sy0 have r: "r = Inr ()"
      by (cases r) (simp_all add: prompt_inference_single_def st s1 then_do_def)
    note sy = sy0 [unfolded r]
    from d have rest: "(case engine_has_session (engine s2) sid of
                    Inl err \<Rightarrow> (Inl err, s2)
                  | Inr has \<Rightarrow>
                      (let tokens = (if has \<and> ntp = 0
                                     then remove_bos_token_if_applicable p toks1 else toks1)
                       in then_do
                            (prefill_single net p sid (drop (nat ntp) tokens)
                               (if ntp = 0 then [] else map Some (take (nat ntp) toks1))
                               (new_token, pl))
                            (\<lambda>acc. Pair (Inr (map Some tokens @ [fst acc], snd acc))) s2)) =
                (Inr (out, logits), s')"
      by (simp add: prompt_inference_single_def st s1 then_do_def [of "synchronize_engines sid"] sy
          Let_def)
    from rest obtain e where e: "engine s2 = Some e"
      by (cases "engine s2") (auto simp: engine_has_session_def)
    have k: "session_known p tokens sid s = has_session (kv_cache_storage e) sid"
      using False sy e by (simp add: session_known_def)
    from rest e n0 t1 obtain acc where
      "out = map Some (if has_session (kv_cache_storage e) sid
                       then remove_bos_token_if_applicable p tokens else tokens) @ [fst acc]"
      by (auto simp: engine_has_session_def Let_def elim!: then_do_Inr split: if_splits)
    then show ?thesis
      by (auto simp: k remove_bos_token_if_applicable_def)
  next
    case True
    then have cond: "int (length tokens) > prompt_processing_sequence_length p \<and>
        enable_multitoken_prefill p"
      by (simp add: chunked_def)
    obtain r s0 where sy0: "synchronize_engines sid s = (r, s0)"
      by (cases "synchronize_engines sid s")
    from c cond sy0 have r: "r = Inr ()"
      by (cases r) (simp_all add: prompt_inference_chunks_def then_do_def)
    note sy = sy0 [unfolded r]
    from c cond have rest: "(case engine_has_session (multitoken_engine s0) sid of
            Inl err \<Rightarrow> (Inl err, s0)
          | Inr has \<Rightarrow>
              (let tokens = (if has then remove_bos_token_if_applicable p tokens else tokens)
               in case token_batches (prompt_processing_sequence_length p) tokens of
                    Inl err \<Rightarrow> (Inl err, s0)
                  | Inr batches \<Rightarrow>
                      then_do (prefill_chunks net p sid 0 batches (None, 0, []))
                        (\<lambda>acc. Pair (Inr (tokens, acc))) s0)) = (Inr st, s1)"
      by (simp add: prompt_inference_chunks_def then_do_def [of "synchronize_engines sid"] sy
          Let_def)
    from rest obtain m where m: "multitoken_engine s0 = Some m"
      by (cases "multitoken_engine s0") (auto simp: engine_has_session_def)
    let ?has = "has_session (kv_cache_storage m) sid"
    let ?toks = "if ?has then remove_bos_token_if_applicable p tokens else tokens"
    have k: "session_known p tokens sid s = ?has"
      using True sy m by (simp add: session_known_def)
    from rest m obtain batches where
      tb: "token_batches (prompt_processing_sequence_length p) ?toks = Inr batches" and
      pc: "then_do (prefill_chunks net p sid 0 batches (None, 0, []))
             (\<lambda>acc. Pair (Inr (?toks, acc))) s0 = (Inr st, s1)"
      by (auto simp: engine_has_session_def Let_def split: sum.splits if_splits)
    from pc obtain acc where
      pf: "prefill_chunks net p sid 0 batches (None, 0, []) s0 = (Inr acc, s1)" and
      sta: "st = (?toks, acc)"
      by (auto elim!: then_do_Inr)
    have t1: "toks1 = ?toks" and ntp: "ntp = fst (snd acc)"
      using sta st by auto
    have "length tokens - 1 \<le> length ?toks"
      using remove_bos_length [of tokens p] by simp
    with cond chunk have "prompt_processing_sequence_length p \<le> int (length ?toks)"
      by linarith
    with chunk have "1 \<le> int (length ?toks) div prompt_processing_sequence_length p"
      by (rule div_ge_one)
    with token_batches_length [OF tb] have "1 \<le> int (length batches)"
      by simp
    moreover have "ntp = prompt_processing_sequence_length p * int (length batches)"
      using prefill_chunks_processed [OF pf] ntp by simp
    ultimately have pos: "ntp \<noteq> 0"
      using chunk by (metis mult_eq_0_iff not_one_le_zero)
    from d pos obtain acc2 where "out = map Some toks1 @ [fst acc2]"
      unfolding prompt_inference_single_def st prod.case Let_def
      by (auto elim!: then_do_Inr split: sum.splits)
    then show ?thesis
      by (auto simp: t1 k remove_bos_token_if_applicable_def)
  qed
qed

lemma prompt_inference_strips_leading_token_witness:
  "tokens_by_attention_mask prompt_inputs = Inr [11, 12, 13] \<and>
   1 \<le> prompt_processing_sequence_length bos_pipeline \<and>
   has_add_bos_token bos_pipeline \<and>
   session_known bos_pipeline [11, 12, 13] ''s'' synced_engines \<and>
   fst (prompt_inference counting_net bos_pipeline prompt_inputs ''s'' synced_engines) =
     Inr ([Some 12, Some 13, Some 5], [[[[4]]], [[[5]]]]) \<and>
   butlast [Some 12, Some 13, Some 5] = map Some (drop 1 [11, 12, 13])"
proof -
  let ?r = "prompt_inference counting_net bos_pipeline prompt_inputs ''s'' synced_engines"
  have toks: "tokens_by_attention_mask prompt_inputs = Inr [11, 12, 13]"
    by code_simp
  have chunk: "1 \<le> prompt_processing_sequence_length bos_pipeline"
    by (simp add: bos_pipeline_def scenario_pipeline_def)
  have bos: "has_add_bos_token bos_pipeline"
    by (simp add: bos_pipeline_def has_add_bos_token_def)
  have known: "session_known bos_pipeline [11, 12, 13] ''s'' synced_engines"
    by (simp add: session_known_def chunked_def bos_pipeline_def scenario_pipeline_def
        synchronize_engines_def synced_engines_def synced_engine_def Let_def get_def
        newer_def transfer_to_def the_engine_def set_engine_def transfer_cache_session_def
        replaces_def synced_session_def has_session_def)
  have f: "fst ?r = Inr ([Some 12, Some 13, Some 5], [[[[4]]], [[[5]]]])"
    by code_simp
  then have res: "?r = (Inr ([Some 12, Some 13, Some 5], [[[[4]]], [[[5]]]]), snd ?r)"
    by (rule with_snd)
  show ?thesis
    using toks chunk bos known f
      prompt_inference_strips_leading_token [OF toks chunk res]
    by simp
qed

text \<open>
  \<open>_remove_bos_token_if_applicable\<close> tests only that the tokenizer has the attribute
  \<open>add_bos_token\<close>; it reads neither the value of the attribute nor the first token.
\<close>

lemma remove_bos_token_ignores_value:
  "add_bos_token p = Some v \<Longrightarrow> remove_bos_token_if_applicable p tokens = drop 1 tokens"
  by (simp add: remove_bos_token_if_applicable_def has_add_bos_token_def)

text \<open>
  C9. The stripping is not limited to a beginning-of-sequence token that the tokenizer
  puts in front of a prompt. With a tokenizer whose \<open>add_bos_token\<close> is \<open>False\<close> (it adds no
  such token, so the prompt \<open>[11, 12, 13]\<close> starts with a token of the prompt) and a
  session that the single-token engine already has after the synchronization,
  \<open>prompt_inference\<close> drops the prompt token \<open>11\<close>: it processes only \<open>12\<close> and \<open>13\<close> and
  returns \<open>[12, 13]\<close> followed by the new token, where the prompt should have been passed
  through unchanged.
\<close>

theorem prompt_inference_strips_prompt_token:
  "add_bos_token bos_off_pipeline = Some False \<and>
   tokens_by_attention_mask prompt_inputs = Inr [11, 12, 13] \<and>
   session_known bos_off_pipeline [11, 12, 13] ''s'' synced_engines \<and>
   remove_bos_token_if_applicable bos_off_pipeline [11, 12, 13] = [12, 13] \<and>
   fst (prompt_inference counting_net bos_off_pipeline prompt_inputs ''s'' synced_engines) =
     Inr ([Some 12, Some 13, Some 5], [[[[4]]], [[[5]]]])"
proof -
  have a: "add_bos_token bos_off_pipeline = Some False"
    by (simp add: bos_off_pipeline_def)
  have t: "tokens_by_attention_mask prompt_inputs = Inr [11, 12, 13]"
    by code_simp
  have k: "session_known bos_off_pipeline [11, 12, 13] ''s'' synced_engines"
    by (simp add: session_known_def chunked_def bos_off_pipeline_def scenario_pipeline_def
        synchronize_engines_def synced_engines_def synced_engine_def Let_def get_def
        newer_def transfer_to_def the_engine_def set_engine_def transfer_cache_session_def
        replaces_def synced_session_def has_session_def)
  have r: "remove_bos_token_if_applicable bos_off_pipeline [11, 12, 13] = [12, 13]"
    by (simp add: remove_bos_token_if_applicable_def has_add_bos_token_def a)
  have f: "fst (prompt_inference counting_net bos_off_pipeline prompt_inputs ''s''
                  synced_engines) = Inr ([Some 12, Some 13, Some 5], [[[[4]]], [[[5]]]])"
    by code_simp
  show ?thesis using a t k r f by simp
qed

section \<open>The end of generation in \<open>engine_forward\<close>\<close>

lemma stream_calls [simp]: "engine_calls (stream strm ev s) = engine_calls s"
  by (simp add: stream_def)

lemma stream_engine [simp]: "engine (stream strm ev s) = engine s"
  by (simp add: stream_def)

lemma begin_iteration_calls [simp]: "engine_calls (begin_iteration s) = engine_calls s"
  by (simp add: begin_iteration_def)

lemma begin_iteration_engine [simp]: "engine (begin_iteration s) = engine s"
  by (simp add: begin_iteration_def)

lemma begin_iteration_iterations [simp]:
  "generate_iterations (begin_iteration s) = Suc (generate_iterations s)"
  by (simp add: begin_iteration_def)

lemma single_token_mask_ok:
  "create_causal_mask (NdArray [[x]]) (NdArray [row]) = Inr [[[row]]]"
  by (simp add: create_causal_mask_unfold input_ids_length_of_def batch_size_of_def
      mask_rows_def shape0_def shape1_def reshape_b11s_def)

lemma autoregressive_inference_engine:
  "autoregressive_inference net p tokens sid s = (Inr r, s') \<Longrightarrow> engine s' \<noteq> None"
  by (auto simp: autoregressive_inference_def Let_def call_engine_def the_engine_def
      set_engine_def split: option.splits sum.splits if_splits prod.splits)

lemma autoregressive_inference_reaches_engine:
  assumes "engine s \<noteq> None" and "tokens \<noteq> []"
  shows "engine_calls (snd (autoregressive_inference net p tokens sid s)) =
           engine_calls s @ [SingleToken]"
  using assms
  by (auto simp: autoregressive_inference_def Let_def single_token_mask_ok call_engine_def
      the_engine_def set_engine_def split: prod.splits)

lemma prompt_inference_nonempty:
  assumes "prompt_inference net p engine_inputs sid s = (Inr (tokens, logits), s')"
  shows "tokens \<noteq> []"
proof -
  from assms obtain toks st s1 where
    "prompt_inference_single net p sid st s1 = (Inr (tokens, logits), s')"
    by (auto simp: prompt_inference_def split: sum.splits elim: then_do_Inr)
  then show ?thesis
    unfolding prompt_inference_single_def Let_def
    by (auto split: prod.splits sum.splits elim!: then_do_Inr)
qed

lemma then_do_calls:
  assumes "\<And>x s. engine_calls (snd (f x s)) = engine_calls s"
  shows "engine_calls (snd (then_do m f s)) = engine_calls (snd (m s))"
proof (cases "m s")
  case (Pair r s')
  with assms show ?thesis by (cases r) (simp_all add: then_do_def)
qed



text \<open>
  One iteration later: when the first iteration of the generation loop returns a token
  other than the end-of-sequence token and the second returns the end-of-sequence token,
  the loop stops after these two iterations and the returned token array holds three
  entries, the token that the prompt inference produced and the two tokens of the loop;
  again exactly one more single-token inference runs and its answer does not appear in
  the result.
\<close>

lemma engine_forward_eos_at_second_step:
  assumes cache: "cache_support_enabled p"
    and force: "\<not> force_max_tokens p"
    and budget: "max_generated_tokens p = Some 10"
    and pop: "pop_session_id engine_inputs = Inr (sid, inputs)"
    and prefill: "prompt_inference net p inputs sid s = (Inr (tokens, prompt_logits), s0)"
    and step1: "autoregressive_inference net p tokens sid
                  (begin_iteration (stream (streamer ctx) (Put tokens) s0)) =
                (Inr (t1, l1), s1)"
    and no_eos: "t1 \<noteq> eos_token_id p"
    and step2: "autoregressive_inference net p (tokens @ [t1]) sid
                  (begin_iteration (stream (streamer ctx) (Put [t1]) s1)) =
                (Inr (eos_token_id p, l2), s2)"
  shows "engine_forward net p engine_inputs ctx s =
           then_do
             (autoregressive_inference net p (tokens @ [t1, eos_token_id p]) sid)
             (\<lambda>_ s3.
                (case concatenate_axis1
                        ((if include_prompt_logits ctx then prompt_logits else []) @ [l1, l2]) of
                   Inl err \<Rightarrow> Inl err
                 | Inr logits \<Rightarrow>
                     Inr (Tokens2 [[last tokens, t1, eos_token_id p]], logits, [Some sid]),
                 stream (streamer ctx) End s3))
             (stream (streamer ctx) (Put [eos_token_id p]) s2) \<and>
         generate_iterations (snd (engine_forward net p engine_inputs ctx s)) =
           generate_iterations s + 2 \<and>
         engine_calls (snd (engine_forward net p engine_inputs ctx s)) =
           engine_calls s0 @ [SingleToken, SingleToken, SingleToken]"
proof -
  let ?gl = "if include_prompt_logits ctx then prompt_logits else []"
  let ?eos = "eos_token_id p"
  let ?s2 = "stream (streamer ctx) (Put [?eos]) s2"
  let ?k = "\<lambda>(_::token \<times> 'a array3) s3.
                (case concatenate_axis1 (?gl @ [l1, l2]) of
                   Inl err \<Rightarrow> Inl err
                 | Inr logits \<Rightarrow> Inr (Tokens2 [[last tokens, t1, ?eos]], logits, [Some sid]),
                 stream (streamer ctx) End s3)"
  have ne: "tokens \<noteq> []" by (rule prompt_inference_nonempty [OF prefill])
  have mt: "max_tokens p = 10" by (simp add: max_tokens_def budget)
  have second: "token_generation net p sid (streamer ctx) 10
                  (tokens @ [t1], [last tokens, t1], ?gl @ [l1])
                  (stream (streamer ctx) (Put [t1]) s1) =
                (Inr (tokens @ [t1, ?eos], [last tokens, t1, ?eos], ?gl @ [l1, l2]), ?s2)"
    by (subst token_generation.simps) (simp add: step2 force)
  have first: "token_generation net p sid (streamer ctx) 10 (tokens, [last tokens], ?gl)
                 (stream (streamer ctx) (Put tokens) s0) =
               (Inr (tokens @ [t1, ?eos], [last tokens, t1, ?eos], ?gl @ [l1, l2]), ?s2)"
    by (subst token_generation.simps) (simp add: step1 no_eos second)
  have g: "generate net p ctx sid (tokens, prompt_logits) s0 =
             then_do (autoregressive_inference net p (tokens @ [t1, ?eos]) sid) ?k ?s2"
    by (simp add: generate_def ne mt then_do_def [of "token_generation net p sid (streamer ctx) 10 (tokens, [last tokens], ?gl)"] first)
  have ef: "engine_forward net p engine_inputs ctx s =
              then_do (autoregressive_inference net p (tokens @ [t1, ?eos]) sid) ?k ?s2"
    by (simp add: engine_forward_def cache pop
        then_do_def [of "prompt_inference net p inputs sid"] prefill g)
  have i0: "generate_iterations s0 = generate_iterations s"
    using prompt_inference_iterations [of net p inputs sid s] prefill by simp
  have i1: "generate_iterations s1 = Suc (generate_iterations s0)"
    using autoregressive_inference_iterations
      [of net p tokens sid "begin_iteration (stream (streamer ctx) (Put tokens) s0)"] step1
    by simp
  have i2: "generate_iterations s2 = Suc (generate_iterations s1)"
    using autoregressive_inference_iterations
      [of net p "tokens @ [t1]" sid "begin_iteration (stream (streamer ctx) (Put [t1]) s1)"] step2
    by simp
  have it: "generate_iterations (snd (engine_forward net p engine_inputs ctx s)) =
              generate_iterations s + 2"
    unfolding ef
    by (subst then_do_iterations) (simp_all add: i0 i1 i2)
  have c1: "engine_calls s1 = engine_calls s0 @ [SingleToken]"
    using autoregressive_inference_calls [OF step1] by simp
  have c2: "engine_calls s2 = engine_calls s1 @ [SingleToken]"
    using autoregressive_inference_calls [OF step2] by simp
  have e2: "engine ?s2 \<noteq> None"
    using autoregressive_inference_engine [OF step2] by simp
  have c3: "engine_calls (snd (autoregressive_inference net p (tokens @ [t1, ?eos]) sid ?s2)) =
              engine_calls ?s2 @ [SingleToken]"
    by (rule autoregressive_inference_reaches_engine [OF e2]) simp
  have ca: "engine_calls (snd (engine_forward net p engine_inputs ctx s)) =
              engine_calls s0 @ [SingleToken, SingleToken, SingleToken]"
    unfolding ef
    by (subst then_do_calls) (simp_all add: c3 c2 c1)
  show ?thesis
    using ef it ca by simp
qed

lemma engine_forward_eos_at_second_step_witness:
  "cache_support_enabled scenario_pipeline \<and>
   \<not> force_max_tokens scenario_pipeline \<and>
   max_generated_tokens scenario_pipeline = Some 10 \<and>
   eos_token_id scenario_pipeline = Some 5 \<and>
   fst (engine_forward counting_net scenario_pipeline (prompt_inputs @ [SessionId ''s''])
          no_streamer fresh_engines) =
     Inr (Tokens2 [[Some 3, Some 4, Some 5]], [[[4], [5]]], [Some ''s'']) \<and>
   generate_iterations (snd (engine_forward counting_net scenario_pipeline
     (prompt_inputs @ [SessionId ''s'']) no_streamer fresh_engines)) = 2 \<and>
   engine_calls (snd (engine_forward counting_net scenario_pipeline
     (prompt_inputs @ [SessionId ''s'']) no_streamer fresh_engines)) =
     [SingleToken, SingleToken, SingleToken, SingleToken, SingleToken, SingleToken]"
proof -
  let ?p = scenario_pipeline
  let ?toks = "[Some 11, Some 12, Some 13, Some 3]"
  let ?pi = "prompt_inference counting_net ?p prompt_inputs ''s'' fresh_engines"
  let ?s0 = "snd ?pi"
  let ?a1 = "autoregressive_inference counting_net ?p ?toks ''s''
               (begin_iteration (stream (streamer no_streamer) (Put ?toks) ?s0))"
  let ?s1 = "snd ?a1"
  let ?a2 = "autoregressive_inference counting_net ?p (?toks @ [Some 4]) ''s''
               (begin_iteration (stream (streamer no_streamer) (Put [Some 4]) ?s1))"
  let ?s2 = "snd ?a2"
  have cache: "cache_support_enabled ?p" by (simp add: scenario_pipeline_def)
  have force: "\<not> force_max_tokens ?p" by (simp add: scenario_pipeline_def)
  have budget: "max_generated_tokens ?p = Some 10" by (simp add: scenario_pipeline_def)
  have eos: "eos_token_id ?p = Some 5" by (simp add: scenario_pipeline_def)
  have pop: "pop_session_id (prompt_inputs @ [SessionId ''s'']) = Inr (''s'', prompt_inputs)"
    by (simp add: pop_session_id_def prompt_inputs_def is_str_def)
  have "fst ?pi = Inr (?toks, [[[[1]]], [[[2]]], [[[3]]]])"
    by code_simp
  then have prefill: "?pi = (Inr (?toks, [[[[1]]], [[[2]]], [[[3]]]]), ?s0)"
    by (rule with_snd)
  have "fst ?a1 = Inr (Some 4, [[[4]]])"
    by code_simp
  then have step1: "?a1 = (Inr (Some 4, [[[4]]]), ?s1)"
    by (rule with_snd)
  have no_eos: "Some 4 \<noteq> eos_token_id ?p" by (simp add: eos)
  have "fst ?a2 = Inr (Some 5, [[[5]]])"
    by code_simp
  then have "?a2 = (Inr (Some 5, [[[5]]]), ?s2)"
    by (rule with_snd)
  then have step2: "?a2 = (Inr (eos_token_id ?p, [[[5]]]), ?s2)"
    by (simp only: eos)
  note t = engine_forward_eos_at_second_step
    [OF cache force budget pop prefill step1 no_eos step2]
  have r1: "fst (engine_forward counting_net ?p (prompt_inputs @ [SessionId ''s''])
                  no_streamer fresh_engines) =
            Inr (Tokens2 [[Some 3, Some 4, Some 5]], [[[4], [5]]], [Some ''s''])"
    unfolding t [THEN conjunct1] by code_simp
  have r2: "generate_iterations (snd (engine_forward counting_net ?p
              (prompt_inputs @ [SessionId ''s'']) no_streamer fresh_engines)) = 2"
    unfolding t [THEN conjunct2, THEN conjunct1] by (simp add: fresh_engines_def)
  have "engine_calls ?s0 = [SingleToken, SingleToken, SingleToken]"
    by code_simp
  then have r3: "engine_calls (snd (engine_forward counting_net ?p
              (prompt_inputs @ [SessionId ''s'']) no_streamer fresh_engines)) =
            [SingleToken, SingleToken, SingleToken, SingleToken, SingleToken, SingleToken]"
    unfolding t [THEN conjunct2, THEN conjunct2] by simp
  show ?thesis
    using cache force budget eos r1 r2 r3 by simp
qed

end
